theory Spec2Isabelle
  imports Main "HOL-Library.Sublist" "HOL-Library.Multiset"
begin

section \<open>Paths\<close>

text \<open>
  The script builds every path with \<^verbatim>\<open>pathlib.Path\<close>. A path is modelled by its
  \<^verbatim>\<open>parts\<close>: the list of its components, an absolute path starting with the
  component \<^verbatim>\<open>/\<close> (or \<^verbatim>\<open>//\<close>), the empty list being the current directory.
  Components are names of directory entries: symbolic links and \<^verbatim>\<open>..\<close> are not
  resolved by the model.
\<close>

type_synonym path = "string list"

text \<open>\<^verbatim>\<open>str.split(sep)\<close> and \<^verbatim>\<open>sep.join(xs)\<close>.\<close>

fun split_on :: "char \<Rightarrow> string \<Rightarrow> string list" where
  "split_on sep [] = [[]]"
| "split_on sep (c # cs) =
     (if c = sep then [] # split_on sep cs
      else (case split_on sep cs of
              [] \<Rightarrow> [[c]]
            | w # ws \<Rightarrow> (c # w) # ws))"

fun str_join :: "string \<Rightarrow> string list \<Rightarrow> string" where
  "str_join sep [] = []"
| "str_join sep [x] = x"
| "str_join sep (x # y # ys) = x @ sep @ str_join sep (y # ys)"

text \<open>
  \<^verbatim>\<open>posixpath.splitroot\<close>: one leading slash or three and more make the root
  \<^verbatim>\<open>/\<close>, exactly two make the root \<^verbatim>\<open>//\<close>. \<^verbatim>\<open>Path(s)\<close> drops empty
  components and the component \<^verbatim>\<open>.\<close>; \<^verbatim>\<open>p / s\<close> starts again from \<open>s\<close> when
  \<open>s\<close> is absolute; \<^verbatim>\<open>str(p)\<close> and \<^verbatim>\<open>p.parent\<close> are as pathlib has them, the
  current directory and the roots being their own parents.
\<close>

definition splitroot :: "string \<Rightarrow> string list \<times> string" where
  "splitroot p =
     (if take 1 p \<noteq> ''/'' then ([], p)
      else if take 1 (drop 1 p) \<noteq> ''/'' \<or> take 1 (drop 2 p) = ''/'' then ([''/''], drop 1 p)
      else ([''//''], drop 2 p))"

definition Path :: "string \<Rightarrow> path" where
  "Path s =
     (case splitroot s of
        (root, rel) \<Rightarrow> root @ filter (\<lambda>x. x \<noteq> [] \<and> x \<noteq> ''.'') (split_on CHR ''/'' rel))"

definition joinpath :: "path \<Rightarrow> string \<Rightarrow> path" where
  "joinpath p s = (if take 1 s = ''/'' then Path s else p @ Path s)"

definition str_path :: "path \<Rightarrow> string" where
  "str_path p =
     (case p of
        [] \<Rightarrow> ''.''
      | c # cs \<Rightarrow> (if c = ''/'' \<or> c = ''//'' then c @ str_join ''/'' cs
                   else str_join ''/'' (c # cs)))"

definition anchor :: "path \<Rightarrow> bool" where
  "anchor p = (p = [] \<or> p = [''/''] \<or> p = [''//''])"

definition parent :: "path \<Rightarrow> path" where
  "parent p = (if anchor p then p else butlast p)"

section \<open>The file system\<close>

text \<open>
  The state the script works on: the entries of the file system, each a directory or
  a regular file with its text, and the set of paths at which the operating system
  refuses to create or open an entry (a read-only location, a full disk). The
  current directory and the root directories always exist. A text is the list of
  its bytes.
\<close>

datatype node = Dir | File string

record fs =
  nodes :: "path \<rightharpoonup> node"
  denied :: "path set"

datatype error =
    FileNotFoundError path
  | NotADirectoryError path
  | FileExistsError path
  | IsADirectoryError path
  | PermissionError path

definition lookup :: "fs \<Rightarrow> path \<Rightarrow> node option" where
  "lookup s p = (if anchor p then Some Dir else nodes s p)"

definition path_exists :: "fs \<Rightarrow> path \<Rightarrow> bool" where
  "path_exists s p = (lookup s p \<noteq> None)"

definition is_dir :: "fs \<Rightarrow> path \<Rightarrow> bool" where
  "is_dir s p = (lookup s p = Some Dir)"

text \<open>
  Resolving a path walks its proper ancestors from the top: the first one that is
  not a directory stops the walk, with \<^verbatim>\<open>ENOENT\<close> when it is missing and
  \<^verbatim>\<open>ENOTDIR\<close> when it is a regular file.
\<close>

definition blocked :: "fs \<Rightarrow> path \<Rightarrow> path option" where
  "blocked s p = find (\<lambda>q. lookup s q \<noteq> Some Dir) (butlast (prefixes p))"

definition walk_error :: "fs \<Rightarrow> path \<Rightarrow> path \<Rightarrow> error" where
  "walk_error s q p = (if lookup s q = None then FileNotFoundError p else NotADirectoryError p)"

definition os_mkdir :: "path \<Rightarrow> fs \<Rightarrow> error option \<times> fs" where
  "os_mkdir p s =
     (case blocked s p of
        Some q \<Rightarrow> (Some (walk_error s q p), s)
      | None \<Rightarrow>
          if lookup s p \<noteq> None then (Some (FileExistsError p), s)
          else if p \<in> denied s then (Some (PermissionError p), s)
          else (None, s\<lparr>nodes := (nodes s)(p \<mapsto> Dir)\<rparr>))"

text \<open>
  \<^verbatim>\<open>Path.mkdir(parents=False, exist_ok=True)\<close>: a missing parent is raised; any other
  error is swallowed when the path is a directory.
\<close>

definition mkdir_exist_ok :: "path \<Rightarrow> fs \<Rightarrow> error option \<times> fs" where
  "mkdir_exist_ok p s =
     (case os_mkdir p s of
        (None, s') \<Rightarrow> (None, s')
      | (Some (FileNotFoundError q), s') \<Rightarrow> (Some (FileNotFoundError q), s')
      | (Some e, s') \<Rightarrow> if is_dir s' p then (None, s') else (Some e, s'))"

text \<open>
  \<^verbatim>\<open>Path.mkdir(parents=True, exist_ok=True)\<close>, as pathlib writes it: try the
  directory; on a missing parent create the parent the same way and try again; on
  any other error succeed when the path is a directory already.
\<close>

function mkdir_parents :: "path \<Rightarrow> fs \<Rightarrow> error option \<times> fs" where
  "mkdir_parents p s =
     (case os_mkdir p s of
        (None, s') \<Rightarrow> (None, s')
      | (Some (FileNotFoundError q), s') \<Rightarrow>
          if parent p = p then (Some (FileNotFoundError q), s')
          else (case mkdir_parents (parent p) s' of
                  (Some e, s'') \<Rightarrow> (Some e, s'')
                | (None, s'') \<Rightarrow> mkdir_exist_ok p s'')
      | (Some e, s') \<Rightarrow> if is_dir s' p then (None, s') else (Some e, s'))"
  by pat_completeness auto
termination
  by (relation "measure (\<lambda>(p, s). length p)") (auto simp: parent_def anchor_def split: if_splits)

declare mkdir_parents.simps [simp del]

text \<open>
  \<^verbatim>\<open>Path.write_text\<close>: open for writing, which creates the file or truncates it,
  and write the text.
\<close>

definition write_text :: "path \<Rightarrow> string \<Rightarrow> fs \<Rightarrow> error option \<times> fs" where
  "write_text p content s =
     (case blocked s p of
        Some q \<Rightarrow> (Some (walk_error s q p), s)
      | None \<Rightarrow>
          if lookup s p = Some Dir then (Some (IsADirectoryError p), s)
          else if p \<in> denied s then (Some (PermissionError p), s)
          else (None, s\<lparr>nodes := (nodes s)(p \<mapsto> File content)\<rparr>))"

section \<open>Statements with effects\<close>

text \<open>
  The body of the generation routine is a straight line of \<^verbatim>\<open>mkdir\<close> and
  \<^verbatim>\<open>write_text\<close> calls. An exception raised by one of them leaves the routine at
  once: the statements after it do not run, and what ran before it stays done.
\<close>

datatype action = Mkdir path | WriteText path string

fun perform :: "action \<Rightarrow> fs \<Rightarrow> error option \<times> fs" where
  "perform (Mkdir d) s = mkdir_parents d s"
| "perform (WriteText f content) s = write_text f content s"

fun run :: "action list \<Rightarrow> fs \<Rightarrow> error option \<times> fs" where
  "run [] s = (None, s)"
| "run (a # as) s =
     (case perform a s of
        (Some e, s') \<Rightarrow> (Some e, s')
      | (None, s') \<Rightarrow> run as s')"

section \<open>Generated file contents\<close>

definition unlines :: "string list \<Rightarrow> string" where
  "unlines ls = concat (map (\<lambda>l. l @ [CHR 0x0A]) ls)"

text \<open>
  The texts are the string constants of the source, line by line; \<open>unlines\<close> ends
  every line of its list with a line feed. The pieces of a text that the source
  builds by concatenation are named after the variable they extend, and the two
  pieces of the compose file after their place around the project name.
\<close>

definition app_init_imports :: "string" where
  \<open>app_init_imports =
   ''from flask import Flask''\<close>

definition app_init_config :: "string" where
  \<open>app_init_config =
   unlines
    ['''',
     ''from config import config_by_name'',
     '''',
     ''def create_app(config_name: str = "development") -> Flask:'',
     ''    app = Flask(__name__)'',
     ''    app.config.from_object(config_by_name[config_name])'']\<close>

definition app_init_database_import :: "string" where
  \<open>app_init_database_import =
   unlines
    ['''',
     ''from flask_sqlalchemy import SQLAlchemy'']\<close>

definition app_init_database_setup :: "string" where
  \<open>app_init_database_setup =
   unlines
    ['''',
     ''    from app.models import db''] @
   ''    db.init_app(app)''\<close>

definition app_init_auth_import :: "string" where
  \<open>app_init_auth_import =
   unlines
    ['''',
     ''from flask_login import LoginManager'']\<close>

definition app_init_auth_setup :: "string" where
  \<open>app_init_auth_setup =
   unlines
    ['''',
     ''    from flask_login import LoginManager'',
     ''    login_manager = LoginManager()''] @
   ''    login_manager.init_app(app)''\<close>

definition app_init_blueprints :: "string" where
  \<open>app_init_blueprints =
   unlines
    ['''',
     '''',
     ''    # Register blueprints'',
     ''    from app.main import bp as main_bp'',
     ''    app.register_blueprint(main_bp)'']\<close>

definition app_init_auth_blueprint :: "string" where
  \<open>app_init_auth_blueprint =
   unlines
    [''    from app.auth import bp as auth_bp'',
     ''    app.register_blueprint(auth_bp)'']\<close>

definition app_init_return :: "string" where
  \<open>app_init_return =
   unlines
    ['''',
     ''    return app'']\<close>

definition create_app_init :: "bool \<Rightarrow> bool \<Rightarrow> string" where
  "create_app_init with_database with_auth =
     (let imports = app_init_imports;
          config = app_init_config;
          (imports, config) =
            (if with_database
             then (imports @ app_init_database_import, config @ app_init_database_setup)
             else (imports, config));
          (imports, config) =
            (if with_auth
             then (imports @ app_init_auth_import, config @ app_init_auth_setup)
             else (imports, config));
          config = config @ app_init_blueprints;
          config = (if with_auth then config @ app_init_auth_blueprint else config);
          config = config @ app_init_return
      in imports @ config)"

definition create_user_model :: "string" where
  \<open>create_user_model =
   unlines
    [''from app import db'',
     ''from werkzeug.security import generate_password_hash, check_password_hash'',
     ''from flask_login import UserMixin'',
     '''',
     '''',
     ''class User(UserMixin, db.Model):'',
     ''    id = db.Column(db.Integer, primary_key=True)'',
     ''    username = db.Column(db.String(80), unique=True, nullable=False)'',
     ''    email = db.Column(db.String(120), unique=True, nullable=False)'',
     ''    password_hash = db.Column(db.String(255), nullable=False)'',
     '''',
     ''    def set_password(self, password: str) -> None:'',
     ''        self.password_hash = generate_password_hash(password)'',
     '''',
     ''    def check_password(self, password: str) -> bool:'',
     ''        return check_password_hash(self.password_hash, password)'']\<close>

definition create_auth_routes :: "string" where
  \<open>create_auth_routes =
   unlines
    [''from flask import Blueprint, render_template, request, redirect, url_for, flash'',
     ''from flask_login import login_user, logout_user, login_required'',
     '''',
     ''bp = Blueprint("auth", __name__, url_prefix="/auth")'',
     '''',
     '''',
     ''@bp.route("/login", methods=["GET", "POST"])'',
     ''def login():'',
     ''    if request.method == "POST":'',
     ''        username = request.form.get("username")'',
     ''        password = request.form.get("password")'',
     ''        # TODO: Implement login logic'',
     ''        flash("Login functionality coming soon")'',
     ''    return render_template("auth/login.html")'',
     '''',
     '''',
     ''@bp.route("/logout")'',
     ''@login_required'',
     ''def logout():'',
     ''    logout_user()'',
     ''    return redirect(url_for("main.index"))'']\<close>

definition create_main_blueprint :: "string" where
  \<open>create_main_blueprint =
   unlines
    [''from flask import Blueprint, render_template'',
     '''',
     ''bp = Blueprint("main", __name__)'',
     '''',
     '''',
     ''@bp.route("/")'',
     ''def index():'',
     ''    return render_template("index.html", title="Home")'']\<close>

definition create_config :: "string" where
  \<open>create_config =
   unlines
    [''import os'',
     ''from datetime import timedelta'',
     '''',
     '''',
     ''class Config:'',
     ''    """Base configuration."""'',
     ''    SECRET_KEY = os.environ.get("SECRET_KEY") or "dev-key-change-in-production"'',
     ''    SQLALCHEMY_TRACK_MODIFICATIONS = False'',
     '''',
     ''    # Session'',
     ''    PERMANENT_SESSION_LIFETIME = timedelta(days=7)'',
     ''    SESSION_COOKIE_SECURE = True'',
     ''    SESSION_COOKIE_HTTPONLY = True'',
     ''    SESSION_COOKIE_SAMESITE = "Lax"'',
     '''',
     '''',
     ''class DevelopmentConfig(Config):'',
     ''    """Development configuration."""'',
     ''    DEBUG = True'',
     ''    TESTING = False'',
     ''    SQLALCHEMY_DATABASE_URI = os.environ.get("DATABASE_URL") or "sqlite:///dev.db"'',
     ''    SESSION_COOKIE_SECURE = False  # Allow HTTP in development'',
     '''',
     '''',
     ''class ProductionConfig(Config):'',
     ''    """Production configuration."""'',
     ''    DEBUG = False'',
     ''    TESTING = False'',
     ''    SQLALCHEMY_DATABASE_URI = os.environ.get("DATABASE_URL")'',
     ''    if not SQLALCHEMY_DATABASE_URI:'',
     ''        raise ValueError("DATABASE_URL environment variable must be set in production")'',
     '''',
     '''',
     ''class TestingConfig(Config):'',
     ''    """Testing configuration."""'',
     ''    TESTING = True'',
     ''    SQLALCHEMY_DATABASE_URI = "sqlite:///:memory:"'',
     ''    WTF_CSRF_ENABLED = False'',
     '''',
     '''',
     ''config_by_name = {'',
     ''    "development": DevelopmentConfig,'',
     ''    "production": ProductionConfig,'',
     ''    "testing": TestingConfig,'',
     ''}'']\<close>

definition create_wsgi :: "string" where
  \<open>create_wsgi =
   unlines
    [''import os'',
     ''from app import create_app'',
     '''',
     ''config_name = os.environ.get("FLASK_ENV", "production")'',
     ''app = create_app(config_name)'',
     '''',
     ''if __name__ == "__main__":'',
     ''    app.run()'']\<close>

definition create_requirements :: "bool \<Rightarrow> bool \<Rightarrow> string" where
  "create_requirements with_database with_auth =
     (let reqs = [''Flask==3.0.0'',
                  ''gunicorn==21.2.0'',
                  ''python-dotenv==1.0.0''];
          reqs = (if with_database
                  then reqs @ [''Flask-SQLAlchemy==3.1.1'',
                               ''alembic==1.13.0'']
                  else reqs);
          reqs = (if with_auth
                  then reqs @ [''Flask-Login==0.6.3'',
                               ''WTForms==3.1.1'',
                               ''email-validator==2.1.0'']
                  else reqs)
      in str_join [CHR 0x0A] reqs @ [CHR 0x0A])"

definition create_env_example :: "string" where
  \<open>create_env_example =
   unlines
    [''FLASK_ENV=development'',
     ''FLASK_APP=wsgi.py'',
     ''SECRET_KEY=your-secret-key-here'',
     ''DATABASE_URL=sqlite:///app.db'']\<close>

definition create_dockerfile :: "string" where
  \<open>create_dockerfile =
   unlines
    [''# Multi-stage build for production'',
     ''FROM python:3.11-slim as base'',
     '''',
     ''# Security: create non-root user'',
     ''RUN groupadd -r appuser && useradd -r -g appuser appuser'',
     '''',
     ''WORKDIR /app'',
     '''',
     ''# Install system dependencies'',
     (''RUN apt-get update && apt-get install -y --no-install-recommends '' @ [CHR 0x5C]),
     (''    curl '' @ [CHR 0x5C]),
     ''    && rm -rf /var/lib/apt/lists/*'',
     '''',
     ''# Development stage'',
     ''FROM base as development'',
     ''COPY requirements.txt .'',
     ''RUN pip install --no-cache-dir -r requirements.txt'',
     ''COPY . .'',
     ''USER appuser'',
     ''EXPOSE 5000'',
     ''CMD ["flask", "run", "--host=0.0.0.0"]'',
     '''',
     ''# Production stage'',
     ''FROM base as production'',
     ''COPY requirements.txt .'',
     ''RUN pip install --no-cache-dir -r requirements.txt'',
     ''COPY . .'',
     ''RUN chown -R appuser:appuser /app'',
     ''USER appuser'',
     '''',
     ''# Security: drop unnecessary capabilities'',
     ''RUN setcap -r /usr/sbin/setcap || true'',
     '''',
     ''EXPOSE 5000'',
     (''HEALTHCHECK --interval=30s --timeout=3s --start-period=5s --retries=3 '' @ [CHR 0x5C]),
     ''    CMD python healthcheck.py'',
     '''',
     ''CMD ["gunicorn", "--bind", "0.0.0.0:5000", "--workers", "4", "--timeout", "60", "--access-logfile", "-", "wsgi:app"]'']\<close>

definition compose_before_name :: "string" where
  \<open>compose_before_name =
   unlines
    [(''version: '' @ [CHR 0x27] @ ''3.8'' @ [CHR 0x27]),
     '''',
     ''services:'',
     ''  web:'',
     ''    build:'',
     ''      context: .'',
     ''      dockerfile: Dockerfile'',
     ''      target: development''] @
   ''    container_name: ''\<close>

definition compose_after_name :: "string" where
  \<open>compose_after_name =
   unlines
    [''_dev'',
     ''    ports:'',
     ''      - "127.0.0.1:5000:5000"'',
     ''    volumes:'',
     ''      - .:/app'',
     ''      - /app/__pycache__'',
     ''    environment:'',
     ''      - FLASK_ENV=development'',
     ''      - FLASK_APP=wsgi.py'',
     ''    env_file:'',
     ''      - .env'',
     ''    networks:'',
     ''      - app-network'',
     ''    healthcheck:'',
     ''      test: ["CMD", "python", "healthcheck.py"]'',
     ''      interval: 30s'',
     ''      timeout: 3s'',
     ''      retries: 3'',
     ''      start_period: 5s'',
     '''',
     ''networks:'',
     ''  app-network:'',
     ''    driver: bridge'']\<close>

definition create_docker_compose :: "string \<Rightarrow> string" where
  "create_docker_compose project_name = compose_before_name @ project_name @ compose_after_name"

definition create_healthcheck :: "string" where
  \<open>create_healthcheck =
   unlines
    [''#!/usr/bin/env python'',
     ''"""Health check for Flask application."""'',
     '''',
     ''import sys'',
     ''import requests'',
     '''',
     ''try:'',
     ''    response = requests.get("http://localhost:5000/", timeout=3)'',
     ''    if response.status_code == 200:'',
     ''        sys.exit(0)'',
     ''except Exception:'',
     ''    pass'',
     '''',
     ''sys.exit(1)'']\<close>

definition create_base_template :: "string \<Rightarrow> string" where
  \<open>create_base_template project_name =
   unlines
    [''<!DOCTYPE html>'',
     ''<html lang="en">'',
     ''<head>'',
     ''    <meta charset="UTF-8">'',
     ''    <meta name="viewport" content="width=device-width, initial-scale=1.0">''] @
   ''    <title>{% block title %} - '' @
   project_name @
   unlines
    [''{% endblock %}</title>'',
     ''</head>'',
     ''<body>'',
     ''    <header>''] @
   ''        <h1>'' @
   project_name @
   unlines
    [''</h1>'',
     ''    </header>'',
     '''',
     ''    <main>'',
     ''        {% block content %}{% endblock %}'',
     ''    </main>'',
     '''',
     ''    <footer>''] @
   ''        <p>&copy; 2024 '' @
   project_name @
   unlines
    [''</p>'',
     ''    </footer>'',
     ''</body>'',
     ''</html>'']\<close>

definition create_index_template :: "string" where
  \<open>create_index_template =
   unlines
    [''{% extends "base.html" %}'',
     '''',
     ''{% block title %}Home{% endblock %}'',
     '''',
     ''{% block content %}'',
     ''<h2>Welcome</h2>'',
     ''<p>Your Flask app is running!</p>'',
     ''{% endblock %}'']\<close>

definition create_test_main :: "string" where
  \<open>create_test_main =
   unlines
    [''def test_index(client):'',
     ''    response = client.get("/")'',
     ''    assert response.status_code == 200'',
     ''    assert b"Welcome" in response.data'']\<close>

definition create_gitignore :: "string" where
  \<open>create_gitignore =
   unlines
    [''# Python'',
     ''__pycache__/'',
     ''*.py[cod]'',
     ''*$py.class'',
     ''*.so'',
     ''.Python'',
     ''env/'',
     ''venv/'',
     ''ENV/'',
     ''build/'',
     ''develop-eggs/'',
     ''dist/'',
     ''downloads/'',
     ''eggs/'',
     ''.eggs/'',
     ''lib/'',
     ''lib64/'',
     ''parts/'',
     ''sdist/'',
     ''var/'',
     ''wheels/'',
     ''*.egg-info/'',
     ''.installed.cfg'',
     ''*.egg'',
     '''',
     ''# IDE'',
     ''.vscode/'',
     ''.idea/'',
     ''*.swp'',
     ''*.swo'',
     '''',
     ''# Testing'',
     ''.pytest_cache/'',
     ''.coverage'',
     ''htmlcov/'',
     '''',
     ''# Environment'',
     ''.env'',
     ''.env.local'',
     '''',
     ''# Database'',
     ''*.db'',
     ''*.sqlite'',
     '''',
     ''# Docker'',
     ''.dockerignore'']\<close>

definition create_dockerignore :: "string" where
  \<open>create_dockerignore =
   unlines
    [''__pycache__'',
     ''*.pyc'',
     ''*.pyo'',
     ''.pytest_cache'',
     ''.coverage'',
     ''htmlcov'',
     ''.git'',
     ''.gitignore'',
     ''.env'',
     ''.env.local'',
     ''.vscode'',
     ''.idea'',
     ''*.swp'',
     ''*.swo'',
     ''README.md'',
     ''tests/'',
     ''migrations/'']\<close>

text \<open>
  The setup steps are a plain string constant, not a formatted one: its
  \<^verbatim>\<open>{project_name}\<close> is written to the file as it stands.
\<close>

definition readme_setup_steps :: "string" where
  \<open>readme_setup_steps =
   unlines
    ['''',
     ''## Development Setup'',
     '''',
     ''1. Clone and enter the project:'',
     ''   ```'',
     ''   cd {project_name}'',
     ''   ```'',
     '''',
     ''2. Create and activate virtual environment:'',
     ''   ```'',
     ''   python -m venv venv'',
     (''   source venv/bin/activate  # On Windows: venv'' @ [CHR 0x5C] @ ''Scripts'' @ [CHR 0x5C] @ ''activate''),
     ''   ```'',
     '''',
     ''3. Install dependencies:'',
     ''   ```'',
     ''   pip install -r requirements.txt'',
     ''   ```'',
     '''',
     ''4. Set up environment:'',
     ''   ```'',
     ''   cp .env.example .env'',
     ''   ```'']\<close>

definition readme_database_step :: "string" where
  \<open>readme_database_step =
   unlines
    ['''',
     ''5. Initialize database:'',
     ''   ```'',
     ''   flask db init'',
     ''   flask db migrate -m "Initial migration"'',
     ''   flask db upgrade'',
     ''   ```'']\<close>

definition readme_run_step :: "string" where
  \<open>readme_run_step =
   unlines
    ['''',
     ''6. Run development server:'',
     ''   ```'',
     ''   flask run'',
     ''   ```'',
     '''',
     ''   Or with Docker:'',
     ''   ```'',
     ''   docker-compose up'',
     ''   ```'',
     '''',
     ''The app will be available at http://localhost:5000'']\<close>

definition readme_heading :: "string" where
  \<open>readme_heading =
   unlines
    ['''',
     '''',
     ''A modern Flask application with Docker support.'',
     '''',
     ''## Features'',
     '''',
     ''- Application factory pattern'',
     ''- Blueprints for modular routing'',
     ''- Environment-based configuration'',
     ''- Docker & docker-compose setup'',
     ''- Production-ready with gunicorn'',
     ''- Security best practices'']\<close>

definition readme_database_features :: "string" where
  \<open>readme_database_features =
   unlines
    [''- SQLAlchemy ORM with migrations'',
     ''- Database support'']\<close>

definition readme_auth_features :: "string" where
  \<open>readme_auth_features =
   unlines
    [''- User authentication'',
     ''- Flask-Login integration'']\<close>

definition create_readme :: "string \<Rightarrow> bool \<Rightarrow> bool \<Rightarrow> string" where
  "create_readme project_name with_database with_auth =
     (let setup_steps = readme_setup_steps;
          setup_steps = (if with_database then setup_steps @ readme_database_step else setup_steps);
          setup_steps = setup_steps @ readme_run_step
      in ''# '' @ project_name @ readme_heading
           @ (if with_database then readme_database_features else [])
           @ (if with_auth then readme_auth_features else [])
           @ setup_steps)"

section \<open>The generation routine\<close>

definition dirs :: "path \<Rightarrow> bool \<Rightarrow> bool \<Rightarrow> path list" where
  "dirs project_root with_database with_auth =
     [project_root @ [''app''],
      project_root @ [''app'', ''templates''],
      project_root @ [''app'', ''static'', ''css''],
      project_root @ [''app'', ''static'', ''js''],
      project_root @ [''tests'']]
     @ (if with_database
        then [project_root @ [''migrations''],
              project_root @ [''app'', ''models'']]
        else [])
     @ (if with_auth
        then [project_root @ [''app'', ''auth'']]
        else [])"

text \<open>The statements of \<^verbatim>\<open>create_project_structure\<close>, in the order of the source.\<close>

definition statements :: "path \<Rightarrow> string \<Rightarrow> bool \<Rightarrow> bool \<Rightarrow> action list" where
  "statements project_root project_name with_database with_auth =
     map Mkdir (dirs project_root with_database with_auth)
     @ [WriteText (project_root @ [''app'', ''__init__.py'']) (create_app_init with_database with_auth),
        WriteText (project_root @ [''tests'', ''__init__.py'']) '''']
     @ (if with_database
        then [WriteText (project_root @ [''app'', ''models'', ''__init__.py'']) '''',
              WriteText (project_root @ [''app'', ''models'', ''user.py'']) create_user_model]
        else [])
     @ (if with_auth
        then [WriteText (project_root @ [''app'', ''auth'', ''__init__.py'']) '''',
              WriteText (project_root @ [''app'', ''auth'', ''routes.py'']) create_auth_routes]
        else [])
     @ [WriteText (project_root @ [''app'', ''main.py'']) create_main_blueprint,
        WriteText (project_root @ [''config.py'']) create_config,
        WriteText (project_root @ [''wsgi.py'']) create_wsgi,
        WriteText (project_root @ [''requirements.txt'']) (create_requirements with_database with_auth),
        WriteText (project_root @ [''.env.example'']) create_env_example,
        WriteText (project_root @ [''.dockerignore'']) create_dockerignore,
        WriteText (project_root @ [''Dockerfile'']) create_dockerfile,
        WriteText (project_root @ [''docker-compose.yml'']) (create_docker_compose project_name),
        WriteText (project_root @ [''healthcheck.py'']) create_healthcheck,
        WriteText (project_root @ [''app'', ''templates'', ''base.html'']) (create_base_template project_name),
        WriteText (project_root @ [''app'', ''templates'', ''index.html'']) create_index_template,
        WriteText (project_root @ [''tests'', ''test_main.py'']) create_test_main,
        WriteText (project_root @ [''.gitignore'']) create_gitignore,
        WriteText (project_root @ [''README.md'']) (create_readme project_name with_database with_auth)]"

definition create_project_structure ::
    "path \<Rightarrow> string \<Rightarrow> bool \<Rightarrow> bool \<Rightarrow> fs \<Rightarrow> error option \<times> fs" where
  "create_project_structure project_root project_name with_database with_auth s =
     run (statements project_root project_name with_database with_auth) s"

section \<open>The command line\<close>

text \<open>
  The model of \<^verbatim>\<open>main\<close> starts where \<^verbatim>\<open>parse_args\<close> has returned the parsed
  arguments, and ends with the exit code of the process, the lines printed on the
  two streams and the file system left behind. Printing is taken to succeed.
\<close>

record args =
  project_name :: string
  path :: string
  with_database :: bool
  with_auth :: bool

record outcome =
  exit_code :: nat
  stdout :: "string list"
  stderr :: "string list"
  disk :: fs

text \<open>
  The text of an \<^verbatim>\<open>OSError\<close>: the error number, its message and the path in
  quotes (the escapes of \<^verbatim>\<open>repr\<close> are not modelled). The success report starts
  with the bytes that the source file holds there.
\<close>

definition str_error :: "error \<Rightarrow> string" where
  "str_error e =
     (case e of
        FileNotFoundError p \<Rightarrow> ''[Errno 2] No such file or directory: '' @ [CHR 0x27] @ str_path p @ [CHR 0x27]
      | NotADirectoryError p \<Rightarrow> ''[Errno 20] Not a directory: '' @ [CHR 0x27] @ str_path p @ [CHR 0x27]
      | FileExistsError p \<Rightarrow> ''[Errno 17] File exists: '' @ [CHR 0x27] @ str_path p @ [CHR 0x27]
      | IsADirectoryError p \<Rightarrow> ''[Errno 21] Is a directory: '' @ [CHR 0x27] @ str_path p @ [CHR 0x27]
      | PermissionError p \<Rightarrow> ''[Errno 13] Permission denied: '' @ [CHR 0x27] @ str_path p @ [CHR 0x27])"

definition destination :: "args \<Rightarrow> path" where
  "destination a = joinpath (Path (path a)) (project_name a)"

definition success_report :: "args \<Rightarrow> path \<Rightarrow> string list" where
  "success_report a project_root =
     [[CHR 0xC3, CHR 0xA2, CHR 0xC5, CHR 0x93, CHR 0xE2, CHR 0x80, CHR 0xA6]
        @ '' Project '' @ [CHR 0x27] @ project_name a @ [CHR 0x27] @ '' created at '' @ str_path project_root,
      [CHR 0x0A] @ ''Next steps:'',
      ''  cd '' @ str_path project_root,
      ''  python -m venv venv'',
      ''  source venv/bin/activate'',
      ''  pip install -r requirements.txt'',
      ''  flask run'']"

definition main :: "args \<Rightarrow> fs \<Rightarrow> outcome" where
  "main a s =
     (let project_root = destination a in
      if path_exists s project_root
      then \<lparr>exit_code = 1, stdout = [],
            stderr = [''Error: Directory '' @ [CHR 0x27] @ str_path project_root @ [CHR 0x27] @ '' already exists''],
            disk = s\<rparr>
      else (case create_project_structure project_root (project_name a)
                   (with_database a) (with_auth a) s of
              (None, s') \<Rightarrow>
                \<lparr>exit_code = 0, stdout = success_report a project_root, stderr = [], disk = s'\<rparr>
            | (Some e, s') \<Rightarrow>
                \<lparr>exit_code = 1, stdout = [],
                 stderr = [''Error creating project: '' @ str_error e], disk = s'\<rparr>))"


section \<open>Notions used by the properties\<close>

subsection \<open>Well-formed file systems and the net effect of a statement\<close>

text \<open>
  A file system is a tree: every proper ancestor of an entry is a directory.
\<close>

definition tree :: "fs \<Rightarrow> bool" where
  "tree s = (\<forall>p q. lookup s p \<noteq> None \<longrightarrow> strict_prefix q p \<longrightarrow> lookup s q = Some Dir)"

definition is_file :: "fs \<Rightarrow> path \<Rightarrow> bool" where
  "is_file s p = (case lookup s p of Some (File c) \<Rightarrow> True | _ \<Rightarrow> False)"

text \<open>
  What a statement that succeeds leaves behind: \<^verbatim>\<open>mkdir\<close> adds the missing
  directories on the way to its target and changes no entry that exists;
  \<^verbatim>\<open>write_text\<close> sets the text of its target.
\<close>

fun effect :: "action \<Rightarrow> (path \<rightharpoonup> node) \<Rightarrow> (path \<rightharpoonup> node)" where
  "effect (Mkdir d) m = (\<lambda>q. if prefix q d \<and> \<not> anchor q \<and> m q = None then Some Dir else m q)"
| "effect (WriteText f content) m = m(f \<mapsto> File content)"

fun dir_targets :: "action list \<Rightarrow> path list" where
  "dir_targets [] = []"
| "dir_targets (Mkdir d # as) = d # dir_targets as"
| "dir_targets (WriteText f content # as) = dir_targets as"

fun writes :: "action list \<Rightarrow> (path \<times> string) list" where
  "writes [] = []"
| "writes (Mkdir d # as) = writes as"
| "writes (WriteText f content # as) = (f, content) # writes as"

definition file_targets :: "action list \<Rightarrow> path list" where
  "file_targets as = map fst (writes as)"

text \<open>
  The one ordering requirement on a list of statements: when a file is written, an
  earlier \<^verbatim>\<open>mkdir\<close> has created its parent directory (as its target or on the
  way to it).
\<close>

fun ready :: "path list \<Rightarrow> action list \<Rightarrow> bool" where
  "ready made [] = True"
| "ready made (Mkdir d # as) = ready (d # made) as"
| "ready made (WriteText f content # as) =
     ((\<exists>d\<in>set made. prefix (parent f) d) \<and> ready made as)"

text \<open>
  Nothing stands in the way of a list of statements: no regular file where a
  directory is to be, no directory where a file is to be written, and no refusal by
  the operating system at a path that is to be created.
\<close>

definition clear :: "fs \<Rightarrow> action list \<Rightarrow> bool" where
  "clear s as =
     ((\<forall>d\<in>set (dir_targets as). \<forall>q\<in>set (prefixes d).
          \<not> is_file s q \<and> (lookup s q = None \<longrightarrow> q \<notin> denied s))
      \<and> (\<forall>f\<in>set (file_targets as).
          \<not> is_dir s f \<and> f \<notin> denied s \<and> (\<forall>d\<in>set (dir_targets as). \<not> prefix f d)))"

subsection \<open>Destinations\<close>

text \<open>
  A destination that can be created: it does not exist, and no regular file stands
  among its ancestors. A file system without faults refuses nothing.
\<close>

definition creatable :: "fs \<Rightarrow> path \<Rightarrow> bool" where
  "creatable s root = (\<not> path_exists s root \<and> (\<forall>q\<in>set (prefixes root). \<not> is_file s q))"

definition fault_free :: "fs \<Rightarrow> bool" where
  "fault_free s = (denied s = {})"

subsection \<open>The expected paths, as the specification lists them\<close>

text \<open>
  Paths relative to the project root. The base set is what every project gets; the
  two gated sets are the ones the specification names for the two toggles.
\<close>

definition base_directories :: "path list" where
  "base_directories =
     [[''app''], [''app'', ''templates''], [''app'', ''static''], [''app'', ''static'', ''css''],
      [''app'', ''static'', ''js''], [''tests'']]"

definition database_directories :: "path list" where
  "database_directories = [[''migrations''], [''app'', ''models'']]"

definition auth_directories :: "path list" where
  "auth_directories = [[''app'', ''auth'']]"

definition base_files :: "path list" where
  "base_files =
     [[''app'', ''__init__.py''], [''tests'', ''__init__.py''], [''app'', ''main.py''],
      [''config.py''], [''wsgi.py''], [''requirements.txt''], [''.env.example''],
      [''.dockerignore''], [''Dockerfile''], [''docker-compose.yml''], [''healthcheck.py''],
      [''app'', ''templates'', ''base.html''], [''app'', ''templates'', ''index.html''],
      [''tests'', ''test_main.py''], [''.gitignore''], [''README.md'']]"

definition database_files :: "path list" where
  "database_files = [[''app'', ''models'', ''__init__.py''], [''app'', ''models'', ''user.py'']]"

definition auth_files :: "path list" where
  "auth_files = [[''app'', ''auth'', ''__init__.py''], [''app'', ''auth'', ''routes.py'']]"

definition expected_directories :: "bool \<Rightarrow> bool \<Rightarrow> path list" where
  "expected_directories db auth =
     base_directories @ (if db then database_directories else [])
       @ (if auth then auth_directories else [])"

definition expected_files :: "bool \<Rightarrow> bool \<Rightarrow> path list" where
  "expected_files db auth =
     base_files @ (if db then database_files else []) @ (if auth then auth_files else [])"

text \<open>
  A destination that exists, in whole or in part, in a way the routine can build on:
  where a directory is to be there is no regular file, and where a file is to be
  written there is no directory.
\<close>

definition compatible :: "fs \<Rightarrow> path \<Rightarrow> bool \<Rightarrow> bool \<Rightarrow> bool" where
  "compatible s root db auth =
     ((\<forall>q\<in>set (prefixes root). \<not> is_file s q)
      \<and> (\<forall>r\<in>set (expected_directories db auth). \<not> is_file s (root @ r))
      \<and> (\<forall>r\<in>set (expected_files db auth). \<not> is_dir s (root @ r)))"

subsection \<open>The lines of a text\<close>

text \<open>
  The lines of a text, as \<^verbatim>\<open>str.split\<close> at the line feed gives them.
\<close>

definition lines_of :: "string \<Rightarrow> string list" where
  "lines_of t = split_on (CHR 0x0A) t"


subsection \<open>The feature list of a README\<close>

text \<open>
  The Features section of a README is read from its text: the lines after the first
  line \<^verbatim>\<open>## Features\<close>, up to the next heading. Its bullets are the lines that
  start with a dash and a space.
\<close>

definition features_section :: "string \<Rightarrow> string list" where
  "features_section t =
     takeWhile (\<lambda>l. take 1 l \<noteq> ''#'')
       (drop 1 (dropWhile (\<lambda>l. l \<noteq> ''## Features'') (lines_of t)))"

definition feature_bullets :: "string \<Rightarrow> string list" where
  "feature_bullets t = map (drop 2) (filter (\<lambda>l. take 2 l = ''- '') (features_section t))"

text \<open>
  The bullets the specification expects for the two toggles.
\<close>

definition base_bullets :: "string list" where
  "base_bullets =
     [''Application factory pattern'', ''Blueprints for modular routing'',
      ''Environment-based configuration'', ''Docker & docker-compose setup'',
      ''Production-ready with gunicorn'', ''Security best practices'']"

definition database_bullets :: "string list" where
  "database_bullets = [''SQLAlchemy ORM with migrations'', ''Database support'']"

definition auth_bullets :: "string list" where
  "auth_bullets = [''User authentication'', ''Flask-Login integration'']"

definition expected_bullets :: "bool \<Rightarrow> bool \<Rightarrow> string list" where
  "expected_bullets db auth =
     base_bullets @ (if db then database_bullets else []) @ (if auth then auth_bullets else [])"

subsection \<open>The formats of the build files\<close>

























subsection \<open>Sample inputs\<close>

text \<open>
  The arguments of \<^verbatim>\<open>scaffold_project.py demo\<close>, and file systems to run them
  on: an empty one; one that holds a part of an earlier output; one that holds an
  unrelated file; one where the operating system refuses to create
  \<^verbatim>\<open>demo/config.py\<close>.
\<close>

definition demo_args :: args where
  "demo_args = \<lparr>project_name = ''demo'', path = ''.'', with_database = False, with_auth = False\<rparr>"

definition empty_disk :: fs where
  "empty_disk = \<lparr>nodes = Map.empty, denied = {}\<rparr>"

definition partial_disk :: fs where
  "partial_disk =
     \<lparr>nodes = [[''demo''] \<mapsto> Dir, [''demo'', ''app''] \<mapsto> Dir, [''demo'', ''README.md''] \<mapsto> File ''old''],
      denied = {}\<rparr>"

definition busy_disk :: fs where
  "busy_disk = \<lparr>nodes = [[''notes.txt''] \<mapsto> File ''keep''], denied = {}\<rparr>"

definition readonly_disk :: fs where
  "readonly_disk = \<lparr>nodes = Map.empty, denied = {[''demo'', ''config.py'']}\<rparr>"

text \<open>
  A reordering of the statements of the sample project: the directories in reverse
  order, then the files in reverse order.
\<close>

definition shuffled :: "action list" where
  "shuffled =
     rev (take 5 (statements [''demo''] ''demo'' False False))
     @ rev (drop 5 (statements [''demo''] ''demo'' False False))"

text \<open>
  A project name with line breaks in it, which brings a heading and a bullet of its
  own into the README.
\<close>

definition hostile_name :: string where
  "hostile_name = ''x'' @ [CHR 0x0A] @ ''## Features'' @ [CHR 0x0A] @ ''- Extra''"

section \<open>How the statements act on the file system\<close>

subsection \<open>Walking a path\<close>

lemma butlast_prefixes: "butlast (prefixes p) = (if p = [] then [] else prefixes (butlast p))"
  by (cases p rule: rev_cases) simp_all

lemma strict_prefix_butlast: "p \<noteq> [] \<Longrightarrow> strict_prefix q p \<longleftrightarrow> prefix q (butlast p)"
  by (cases p rule: rev_cases) (auto simp: strict_prefix_def)

lemma blocked_None_iff:
  "blocked s p = None \<longleftrightarrow> (\<forall>q. strict_prefix q p \<longrightarrow> lookup s q = Some Dir)"
  by (cases "p = []") (auto simp: blocked_def find_None_iff butlast_prefixes strict_prefix_butlast)

lemma find_SomeD: "find P xs = Some x \<Longrightarrow> x \<in> set xs \<and> P x"
  by (induction xs) (auto split: if_splits)

lemma blocked_SomeD: "blocked s p = Some q \<Longrightarrow> strict_prefix q p \<and> lookup s q \<noteq> Some Dir"
  by (cases "p = []") (auto simp: blocked_def butlast_prefixes strict_prefix_butlast dest!: find_SomeD)

lemma os_mkdir_None:
  "os_mkdir p s = (None, s') \<longleftrightarrow>
     blocked s p = None \<and> lookup s p = None \<and> p \<notin> denied s \<and> s' = s\<lparr>nodes := (nodes s)(p \<mapsto> Dir)\<rparr>"
  by (auto simp: os_mkdir_def split: option.splits)

lemma os_mkdir_Some: "os_mkdir p s = (Some e, s') \<Longrightarrow> s' = s"
  by (auto simp: os_mkdir_def split: option.splits if_splits)

subsection \<open>What mkdir leaves behind\<close>

lemma lookup_update [simp]:
  "lookup (s\<lparr>nodes := m\<rparr>) p = (if anchor p then Some Dir else m p)"
  by (simp add: lookup_def)

lemma anchor_Nil [simp]: "anchor []"
  by (simp add: anchor_def)

lemma effect_Mkdir_Nil [simp]: "effect (Mkdir []) m = m"
  by (auto simp: fun_eq_iff)

lemma effect_Mkdir_new:
  assumes "\<forall>q. strict_prefix q p \<longrightarrow> lookup s q = Some Dir" and "lookup s p = None"
  shows "effect (Mkdir p) (nodes s) = (nodes s)(p \<mapsto> Dir)"
proof
  fix q
  show "effect (Mkdir p) (nodes s) q = ((nodes s)(p \<mapsto> Dir)) q"
    using assms by (auto simp: lookup_def strict_prefix_def split: if_splits)
qed

lemma effect_Mkdir_old:
  assumes "\<forall>q. prefix q p \<longrightarrow> lookup s q = Some Dir"
  shows "effect (Mkdir p) (nodes s) = nodes s"
proof
  fix q
  show "effect (Mkdir p) (nodes s) q = nodes s q"
    using assms by (auto simp: lookup_def split: if_splits)
qed

lemma effect_Mkdir_absorb:
  "prefix k p \<Longrightarrow> effect (Mkdir p) (effect (Mkdir k) m) = effect (Mkdir p) m"
  by (auto simp: fun_eq_iff dest: prefix_order.trans)

lemma record_nodes_id [simp]: "s\<lparr>nodes := nodes s\<rparr> = s"
  by simp

lemma mkdir_exist_ok_result:
  assumes "\<forall>q. strict_prefix q p \<longrightarrow> lookup s q = Some Dir"
    and "mkdir_exist_ok p s = (r, s')"
  shows "(r = None \<and> s' = s\<lparr>nodes := effect (Mkdir p) (nodes s)\<rparr> \<and> lookup s' p = Some Dir)
         \<or> (r \<noteq> None \<and> s' = s)"
proof (cases "os_mkdir p s")
  case (Pair e0 s0)
  show ?thesis
  proof (cases e0)
    case None
    with Pair have *: "lookup s p = None" "s0 = s\<lparr>nodes := (nodes s)(p \<mapsto> Dir)\<rparr>"
      by (auto simp: os_mkdir_None)
    from assms(2) Pair None have "r = None" "s' = s0"
      by (auto simp: mkdir_exist_ok_def)
    with * effect_Mkdir_new[OF assms(1) *(1)] show ?thesis
      by (auto simp: lookup_def)
  next
    case (Some e)
    with Pair have s0: "s0 = s" by (auto dest: os_mkdir_Some)
    show ?thesis
    proof (cases "r")
      case None
      with assms(2) Pair Some s0 have "is_dir s p" "s' = s"
        by (auto simp: mkdir_exist_ok_def split: error.splits if_splits)
      moreover from this assms(1) have "\<forall>q. prefix q p \<longrightarrow> lookup s q = Some Dir"
        by (auto simp: is_dir_def strict_prefix_def)
      ultimately show ?thesis using None effect_Mkdir_old[of p s]
        by (auto simp: is_dir_def)
    next
      case (Some e')
      with assms(2) Pair \<open>e0 = Some e\<close> s0 show ?thesis
        by (auto simp: mkdir_exist_ok_def split: error.splits if_splits)
    qed
  qed
qed

lemma effect_Mkdir_keeps: "m q \<noteq> None \<Longrightarrow> effect (Mkdir d) m q = m q"
  by simp

declare effect.simps [simp del]

lemma parent_strict: "\<not> anchor p \<Longrightarrow> strict_prefix q p \<longleftrightarrow> prefix q (parent p)"
  by (auto simp: parent_def anchor_def strict_prefix_butlast)

lemma parent_prefix: "prefix (parent p) p"
  by (cases p rule: rev_cases) (auto simp: parent_def)

lemma parent_fix: "parent p = p \<longleftrightarrow> anchor p"
  by (cases p rule: rev_cases) (auto simp: parent_def anchor_def)

lemma mkdir_parents_result:
  "tree s \<Longrightarrow> mkdir_parents p s = (r, s') \<Longrightarrow>
     \<exists>k. prefix k p \<and> (r = None \<longrightarrow> k = p) \<and> s' = s\<lparr>nodes := effect (Mkdir k) (nodes s)\<rparr>
         \<and> (\<forall>q. prefix q k \<longrightarrow> lookup s' q = Some Dir)"
proof (induction p s arbitrary: r s' rule: mkdir_parents.induct)
  case (1 p s r s')
  obtain e0 s0 where os: "os_mkdir p s = (e0, s0)" by (cases "os_mkdir p s")
  let ?goal = "\<exists>k. prefix k p \<and> (r = None \<longrightarrow> k = p) \<and> s' = s\<lparr>nodes := effect (Mkdir k) (nodes s)\<rparr>
         \<and> (\<forall>q. prefix q k \<longrightarrow> lookup s' q = Some Dir)"
  have untouched: "r \<noteq> None \<Longrightarrow> s' = s \<Longrightarrow> ?goal"
    by (rule exI[of _ "[]"]) (auto simp: lookup_def)
  show ?case
  proof (cases e0)
    case None
    with os have *: "blocked s p = None" "lookup s p = None" "s0 = s\<lparr>nodes := (nodes s)(p \<mapsto> Dir)\<rparr>"
      by (auto simp: os_mkdir_None)
    from "1.prems"(2) os None have rs: "r = None" "s' = s0"
      by (auto simp: mkdir_parents.simps[of p s])
    have sp: "\<forall>q. strict_prefix q p \<longrightarrow> lookup s q = Some Dir"
      using *(1) by (simp add: blocked_None_iff)
    have "s' = s\<lparr>nodes := effect (Mkdir p) (nodes s)\<rparr>"
      using rs * effect_Mkdir_new[OF sp *(2)] by simp
    moreover have "\<forall>q. prefix q p \<longrightarrow> lookup s' q = Some Dir"
      using rs * sp by (auto simp: lookup_def strict_prefix_def)
    ultimately show ?thesis using rs by blast
  next
    case (Some e)
    with os have s0: "s0 = s" by (auto dest: os_mkdir_Some)
    show ?thesis
    proof (cases "\<exists>q. e = FileNotFoundError q")
      case True
      then obtain q where e: "e = FileNotFoundError q" by blast
      show ?thesis
      proof (cases "parent p = p")
        case True
        with "1.prems"(2) os Some e s0 have "r \<noteq> None" "s' = s"
          by (auto simp: mkdir_parents.simps[of p s])
        then show ?thesis by (rule untouched)
      next
        case False
        then have na: "\<not> anchor p" by (simp add: parent_fix)
        obtain r1 s1 where rec: "mkdir_parents (parent p) s = (r1, s1)"
          by (cases "mkdir_parents (parent p) s")
        have "(Some (FileNotFoundError q), s) = os_mkdir p s"
          using os Some e s0 by simp
        from "1.IH"[OF this refl refl False "1.prems"(1) rec]
        obtain k where k: "prefix k (parent p)" "r1 = None \<longrightarrow> k = parent p"
            "s1 = s\<lparr>nodes := effect (Mkdir k) (nodes s)\<rparr>"
            "\<forall>q. prefix q k \<longrightarrow> lookup s1 q = Some Dir"
          by blast
        show ?thesis
        proof (cases r1)
          case (Some e1)
          with "1.prems"(2) os \<open>e0 = Some e\<close> e s0 rec False have "r = Some e1" "s' = s1"
            by (auto simp: mkdir_parents.simps[of p s])
          with k parent_prefix[of p] show ?thesis
            by (intro exI[of _ k]) (auto dest: prefix_order.trans)
        next
          case None
          with k have kp: "k = parent p" by simp
          from "1.prems"(2) os \<open>e0 = Some e\<close> e s0 rec False None
          have ok: "mkdir_exist_ok p s1 = (r, s')"
            by (auto simp: mkdir_parents.simps[of p s])
          have sp: "\<forall>q. strict_prefix q p \<longrightarrow> lookup s1 q = Some Dir"
            using k(4) kp na by (simp add: parent_strict)
          from mkdir_exist_ok_result[OF sp ok] show ?thesis
          proof
            assume a: "r = None \<and> s' = s1\<lparr>nodes := effect (Mkdir p) (nodes s1)\<rparr> \<and> lookup s' p = Some Dir"
            have "s' = s\<lparr>nodes := effect (Mkdir p) (nodes s)\<rparr>"
              using a k(3) kp effect_Mkdir_absorb[OF parent_prefix, of p "nodes s"] by simp
            moreover have "\<forall>q. prefix q p \<longrightarrow> lookup s' q = Some Dir"
            proof (intro allI impI)
              fix q assume "prefix q p"
              then consider "q = p" | "strict_prefix q p" by (auto simp: strict_prefix_def)
              then show "lookup s' q = Some Dir"
              proof cases
                case 1 then show ?thesis using a by blast
              next
                case 2
                then have "lookup s1 q = Some Dir" using sp by simp
                then show ?thesis using a by (auto simp: lookup_def effect_Mkdir_keeps split: if_splits)
              qed
            qed
            ultimately show ?thesis using a by blast
          next
            assume a: "r \<noteq> None \<and> s' = s1"
            with k parent_prefix[of p] show ?thesis
              by (intro exI[of _ k]) (auto dest: prefix_order.trans)
          qed
        qed
      qed
    next
      case False
      show ?thesis
      proof (cases "is_dir s p")
        case True
        with "1.prems"(2) os Some False s0 have rs: "r = None" "s' = s"
          by (auto simp: mkdir_parents.simps[of p s] split: error.splits)
        have all: "\<forall>q. prefix q p \<longrightarrow> lookup s q = Some Dir"
          using True "1.prems"(1) by (auto simp: tree_def is_dir_def strict_prefix_def)
        with rs effect_Mkdir_old[OF all] show ?thesis by auto
      next
        case notdir: False
        with "1.prems"(2) os Some False s0 have "r \<noteq> None" "s' = s"
          by (auto simp: mkdir_parents.simps[of p s] split: error.splits)
        then show ?thesis by (rule untouched)
      qed
    qed
  qed
qed

subsection \<open>What one statement does\<close>

lemma is_file_iff: "is_file s p \<longleftrightarrow> (\<exists>c. lookup s p = Some (File c))"
  by (auto simp: is_file_def split: option.splits node.splits)

lemma lookup_cases: "lookup s p = None \<or> lookup s p = Some Dir \<or> is_file s p"
  by (auto simp: is_file_def split: option.splits node.splits)

lemma write_text_None:
  "write_text p c s = (None, s') \<longleftrightarrow>
     blocked s p = None \<and> lookup s p \<noteq> Some Dir \<and> p \<notin> denied s
     \<and> s' = s\<lparr>nodes := (nodes s)(p \<mapsto> File c)\<rparr>"
  by (auto simp: write_text_def split: option.splits)

lemma write_text_Some: "write_text p c s = (Some e, s') \<Longrightarrow> s' = s"
  by (auto simp: write_text_def split: option.splits if_splits)

lemma tree_effect_Mkdir:
  assumes "tree s" and "\<forall>q. prefix q k \<longrightarrow> lookup (s\<lparr>nodes := effect (Mkdir k) (nodes s)\<rparr>) q = Some Dir"
  shows "tree (s\<lparr>nodes := effect (Mkdir k) (nodes s)\<rparr>)"
  unfolding tree_def
proof (intro allI impI)
  let ?s' = "s\<lparr>nodes := effect (Mkdir k) (nodes s)\<rparr>"
  fix p q assume p: "lookup ?s' p \<noteq> None" and q: "strict_prefix q p"
  show "lookup ?s' q = Some Dir"
  proof (cases "lookup s p = None")
    case True
    with p have "prefix p k" by (auto simp: lookup_def effect.simps split: if_splits)
    with q have "prefix q k" by (auto simp: strict_prefix_def dest: prefix_order.trans)
    with assms(2) show ?thesis by blast
  next
    case False
    with assms(1) q have "lookup s q = Some Dir" by (auto simp: tree_def)
    then show ?thesis by (auto simp: lookup_def effect_Mkdir_keeps)
  qed
qed

lemma tree_write:
  assumes "tree s" and "blocked s p = None" and "lookup s p \<noteq> Some Dir"
  shows "tree (s\<lparr>nodes := (nodes s)(p \<mapsto> File c)\<rparr>)"
  unfolding tree_def
proof (intro allI impI)
  let ?s' = "s\<lparr>nodes := (nodes s)(p \<mapsto> File c)\<rparr>"
  fix x q assume x: "lookup ?s' x \<noteq> None" and q: "strict_prefix q x"
  have qp: "q \<noteq> p"
  proof
    assume "q = p"
    show False
    proof (cases "x = p")
      case True with q \<open>q = p\<close> show False by simp
    next
      case False
      with x have "lookup s x \<noteq> None" by (auto simp: lookup_def split: if_splits)
      with assms(1) q \<open>q = p\<close> have "lookup s p = Some Dir" by (auto simp: tree_def)
      with assms(3) show False by simp
    qed
  qed
  have "lookup s q = Some Dir"
  proof (cases "x = p")
    case True
    with assms(2) q show ?thesis by (simp add: blocked_None_iff)
  next
    case False
    with x have "lookup s x \<noteq> None" by (auto simp: lookup_def split: if_splits)
    with assms(1) q show ?thesis by (auto simp: tree_def)
  qed
  with qp show "lookup ?s' q = Some Dir" by (auto simp: lookup_def)
qed

text \<open>What one statement does to a well-formed file system, whatever its outcome.\<close>

lemma perform_result:
  assumes "tree s" and "perform a s = (r, s')"
  shows "tree s'" and "denied s' = denied s"
    and "r = None \<Longrightarrow> s' = s\<lparr>nodes := effect a (nodes s)\<rparr>"
    and "lookup s q = Some Dir \<Longrightarrow> lookup s' q = Some Dir"
    and "lookup s q = Some (File c) \<Longrightarrow> (\<forall>c'. a \<noteq> WriteText q c') \<Longrightarrow> lookup s' q = Some (File c)"
    and "lookup s' q = None \<Longrightarrow> lookup s q = None"
    and "is_file s' q \<Longrightarrow> is_file s q \<or> (\<exists>c'. a = WriteText q c')"
    and "lookup s' q = Some Dir \<Longrightarrow> lookup s q = Some Dir \<or> (\<exists>d. a = Mkdir d \<and> prefix q d)"
    and "r = None \<Longrightarrow> a = Mkdir d \<Longrightarrow> prefix q d \<Longrightarrow> lookup s' q = Some Dir"
proof -
  have "tree s' \<and> denied s' = denied s \<and> (r = None \<longrightarrow> s' = s\<lparr>nodes := effect a (nodes s)\<rparr>)
      \<and> (lookup s q = Some Dir \<longrightarrow> lookup s' q = Some Dir)
      \<and> (lookup s q = Some (File c) \<longrightarrow> (\<forall>c'. a \<noteq> WriteText q c') \<longrightarrow> lookup s' q = Some (File c))
      \<and> (lookup s' q = None \<longrightarrow> lookup s q = None)
      \<and> (is_file s' q \<longrightarrow> is_file s q \<or> (\<exists>c'. a = WriteText q c'))
      \<and> (lookup s' q = Some Dir \<longrightarrow> lookup s q = Some Dir \<or> (\<exists>d. a = Mkdir d \<and> prefix q d))
      \<and> (r = None \<longrightarrow> (\<forall>d. a = Mkdir d \<longrightarrow> prefix q d \<longrightarrow> lookup s' q = Some Dir))"
  proof (cases a)
    case (Mkdir d)
    with assms(2) have "mkdir_parents d s = (r, s')" by simp
    from mkdir_parents_result[OF assms(1) this]
    obtain k where k: "prefix k d" "r = None \<longrightarrow> k = d" "s' = s\<lparr>nodes := effect (Mkdir k) (nodes s)\<rparr>"
      "\<forall>q. prefix q k \<longrightarrow> lookup s' q = Some Dir" by blast
    have "tree s'" using tree_effect_Mkdir[OF assms(1)] k(3,4) by simp
    moreover have "denied s' = denied s" using k(3) by simp
    moreover have keep: "lookup s q \<noteq> None \<Longrightarrow> lookup s' q = lookup s q" for q
      using k(3) by (auto simp: lookup_def effect_Mkdir_keeps)
    moreover have "lookup s' q = None \<longrightarrow> lookup s q = None"
      using keep[of q] by (cases "lookup s q") auto
    moreover have "is_file s' q \<longrightarrow> is_file s q"
      using k(3) by (auto simp: is_file_iff lookup_def effect.simps split: if_splits)
    moreover have "lookup s' q = Some Dir \<longrightarrow> lookup s q = Some Dir \<or> prefix q d"
      using k(1,3) by (auto simp: lookup_def effect.simps split: if_splits dest: prefix_order.trans)
    moreover have "r = None \<longrightarrow> prefix q d \<longrightarrow> lookup s' q = Some Dir"
      using k(2,4) by blast
    ultimately show ?thesis using k(2,3) Mkdir by auto
  next
    case (WriteText f content)
    with assms(2) have w: "write_text f content s = (r, s')" by simp
    show ?thesis
    proof (cases r)
      case None
      with w have *: "blocked s f = None" "lookup s f \<noteq> Some Dir" "s' = s\<lparr>nodes := (nodes s)(f \<mapsto> File content)\<rparr>"
        by (auto simp: write_text_None)
      have "tree s'" using tree_write[OF assms(1) *(1,2)] *(3) by simp
      then show ?thesis using * None WriteText
        by (auto simp: lookup_def is_file_iff effect.simps split: if_splits)
    next
      case (Some e)
      with w have "s' = s" by (auto dest: write_text_Some)
      with assms(1) Some show ?thesis by simp
    qed
  qed
  then show "tree s'" and "denied s' = denied s"
    and "r = None \<Longrightarrow> s' = s\<lparr>nodes := effect a (nodes s)\<rparr>"
    and "lookup s q = Some Dir \<Longrightarrow> lookup s' q = Some Dir"
    and "lookup s q = Some (File c) \<Longrightarrow> (\<forall>c'. a \<noteq> WriteText q c') \<Longrightarrow> lookup s' q = Some (File c)"
    and "lookup s' q = None \<Longrightarrow> lookup s q = None"
    and "is_file s' q \<Longrightarrow> is_file s q \<or> (\<exists>c'. a = WriteText q c')"
    and "lookup s' q = Some Dir \<Longrightarrow> lookup s q = Some Dir \<or> (\<exists>d. a = Mkdir d \<and> prefix q d)"
    and "r = None \<Longrightarrow> a = Mkdir d \<Longrightarrow> prefix q d \<Longrightarrow> lookup s' q = Some Dir"
    by blast+
qed

subsection \<open>Runs of statements\<close>

lemma set_dir_targets: "set (dir_targets as) = {d. Mkdir d \<in> set as}"
  by (induction as rule: dir_targets.induct) auto

lemma set_writes: "set (writes as) = {(f, c). WriteText f c \<in> set as}"
  by (induction as rule: writes.induct) auto

lemma run_failure_split:
  "run as s = (Some e, s') \<Longrightarrow>
     \<exists>done failing rest s1. as = done @ failing # rest \<and> run done s = (None, s1)
        \<and> perform failing s1 = (Some e, s')"
proof (induction as arbitrary: s)
  case Nil
  then show ?case by simp
next
  case (Cons a as)
  obtain r1 s1 where p: "perform a s = (r1, s1)" by (cases "perform a s")
  show ?case
  proof (cases r1)
    case None
    with Cons.prems p have "run as s1 = (Some e, s')" by simp
    from Cons.IH[OF this] obtain dn failing rest s2 where
      "as = dn @ failing # rest" "run dn s1 = (None, s2)" "perform failing s2 = (Some e, s')"
      by blast
    with p None show ?thesis
      by (intro exI[of _ "a # dn"] exI[of _ failing] exI[of _ rest] exI[of _ s2]) simp
  next
    case (Some e1)
    with Cons.prems p have "e1 = e" "s1 = s'" by simp_all
    with p Some show ?thesis
      by (intro exI[of _ "[]"] exI[of _ a] exI[of _ as] exI[of _ s]) simp
  qed
qed

lemma run_Cons_cases:
  assumes "run (a # as) s = (r, s')"
  obtains (stop) e where "perform a s = (Some e, s')" "r = Some e"
        | (go) s1 where "perform a s = (None, s1)" "run as s1 = (r, s')"
  using assms by (cases "perform a s") (auto split: option.splits)

lemma run_tree:
  "tree s \<Longrightarrow> run as s = (r, s') \<Longrightarrow> tree s' \<and> denied s' = denied s"
proof (induction as arbitrary: s)
  case Nil
  then show ?case by simp
next
  case (Cons a as)
  from Cons.prems(2) show ?case
  proof (cases rule: run_Cons_cases)
    case (stop e)
    then show ?thesis using perform_result(1,2)[OF Cons.prems(1) stop(1)] by simp
  next
    case (go s1)
    then show ?thesis
      using perform_result(1,2)[OF Cons.prems(1) go(1)] Cons.IH[of s1] by simp
  qed
qed

lemma run_keeps_dir:
  "tree s \<Longrightarrow> run as s = (r, s') \<Longrightarrow> lookup s q = Some Dir \<Longrightarrow> lookup s' q = Some Dir"
proof (induction as arbitrary: s)
  case Nil
  then show ?case by simp
next
  case (Cons a as)
  from Cons.prems(2) show ?case
  proof (cases rule: run_Cons_cases)
    case (stop e)
    then show ?thesis using perform_result(4)[OF Cons.prems(1) stop(1) Cons.prems(3)] by simp
  next
    case (go s1)
    show ?thesis
      using Cons.IH[OF perform_result(1)[OF Cons.prems(1) go(1)] go(2)
          perform_result(4)[OF Cons.prems(1) go(1) Cons.prems(3)]] .
  qed
qed

lemma run_keeps_missing:
  "tree s \<Longrightarrow> run as s = (r, s') \<Longrightarrow> lookup s' q = None \<Longrightarrow> lookup s q = None"
proof (induction as arbitrary: s)
  case Nil
  then show ?case by simp
next
  case (Cons a as)
  from Cons.prems(2) show ?case
  proof (cases rule: run_Cons_cases)
    case (stop e)
    then show ?thesis using perform_result(6)[OF Cons.prems(1) stop(1) Cons.prems(3)] by simp
  next
    case (go s1)
    have "lookup s1 q = None"
      using Cons.IH[OF perform_result(1)[OF Cons.prems(1) go(1)] go(2) Cons.prems(3)] .
    then show ?thesis by (rule perform_result(6)[OF Cons.prems(1) go(1)])
  qed
qed

lemma file_targets_Cons:
  "q \<notin> set (file_targets (a # as)) \<longleftrightarrow> (\<forall>c. a \<noteq> WriteText q c) \<and> q \<notin> set (file_targets as)"
  by (cases a) (auto simp: file_targets_def)

lemma run_keeps_file:
  "tree s \<Longrightarrow> run as s = (r, s') \<Longrightarrow> lookup s q = Some (File c) \<Longrightarrow>
     q \<notin> set (file_targets as) \<Longrightarrow> lookup s' q = Some (File c)"
proof (induction as arbitrary: s)
  case Nil
  then show ?case by simp
next
  case (Cons a as)
  from Cons.prems(4) have nw: "\<forall>c'. a \<noteq> WriteText q c'" "q \<notin> set (file_targets as)"
    by (simp_all add: file_targets_Cons)
  from Cons.prems(2) show ?case
  proof (cases rule: run_Cons_cases)
    case (stop e)
    then show ?thesis
      using perform_result(5)[OF Cons.prems(1) stop(1) Cons.prems(3) nw(1)] by simp
  next
    case (go s1)
    show ?thesis
      using Cons.IH[OF perform_result(1)[OF Cons.prems(1) go(1)] go(2)
          perform_result(5)[OF Cons.prems(1) go(1) Cons.prems(3) nw(1)] nw(2)] .
  qed
qed

lemma run_effect:
  "tree s \<Longrightarrow> run as s = (None, s') \<Longrightarrow> s' = s\<lparr>nodes := fold effect as (nodes s)\<rparr>"
proof (induction as arbitrary: s)
  case Nil
  then show ?case by simp
next
  case (Cons a as)
  from Cons.prems(2) show ?case
  proof (cases rule: run_Cons_cases)
    case (stop e)
    then show ?thesis by simp
  next
    case (go s1)
    have s1: "s1 = s\<lparr>nodes := effect a (nodes s)\<rparr>"
      using perform_result(3)[OF Cons.prems(1) go(1)] by simp
    have "s' = s1\<lparr>nodes := fold effect as (nodes s1)\<rparr>"
      using Cons.IH[OF perform_result(1)[OF Cons.prems(1) go(1)] go(2)] .
    then show ?thesis by (simp add: s1)
  qed
qed

text \<open>The net effect of a list of statements, path by path.\<close>

lemma fold_effect:
  "fold effect as m q =
     (case map_of (rev (writes as)) q of
        Some c \<Rightarrow> Some (File c)
      | None \<Rightarrow> if (\<exists>d\<in>set (dir_targets as). prefix q d) \<and> \<not> anchor q \<and> m q = None
                then Some Dir else m q)"
proof (induction as arbitrary: m)
  case Nil
  then show ?case by simp
next
  case (Cons a as)
  show ?case
  proof (cases a)
    case (Mkdir d)
    then show ?thesis
      by (simp add: Cons.IH effect.simps split: option.splits)
  next
    case (WriteText f content)
    then show ?thesis
      by (auto simp: Cons.IH effect.simps map_add_def split: option.splits)
  qed
qed

subsection \<open>When a run raises nothing\<close>

lemma mkdir_parents_enabled:
  "tree s \<Longrightarrow> \<forall>q. prefix q d \<longrightarrow> \<not> is_file s q \<and> (lookup s q = None \<longrightarrow> q \<notin> denied s) \<Longrightarrow>
     fst (mkdir_parents d s) = None"
proof (induction d s rule: mkdir_parents.induct)
  case (1 p s)
  have self: "\<not> is_file s p" "lookup s p = None \<longrightarrow> p \<notin> denied s"
    using "1.prems"(2) by auto
  show ?case
  proof (cases "blocked s p")
    case None
    show ?thesis
    proof (cases "lookup s p = None")
      case True
      with None self have "os_mkdir p s = (None, s\<lparr>nodes := (nodes s)(p \<mapsto> Dir)\<rparr>)"
        by (simp add: os_mkdir_def)
      then show ?thesis by (simp add: mkdir_parents.simps[of p s])
    next
      case False
      with self lookup_cases[of s p] have d: "is_dir s p" by (auto simp: is_dir_def)
      from None False have "os_mkdir p s = (Some (FileExistsError p), s)"
        by (simp add: os_mkdir_def)
      with d show ?thesis by (simp add: mkdir_parents.simps[of p s])
    qed
  next
    case (Some q)
    then have q: "strict_prefix q p" "lookup s q \<noteq> Some Dir" by (auto dest: blocked_SomeD)
    with "1.prems"(2) lookup_cases[of s q] have qn: "lookup s q = None"
      by (auto simp: strict_prefix_def)
    have na: "\<not> anchor p"
    proof
      assume "anchor p"
      with q(1) have "q = []" by (auto simp: anchor_def strict_prefix_def prefix_Cons)
      with qn show False by (simp add: lookup_def)
    qed
    then have pp: "parent p \<noteq> p" by (simp add: parent_fix)
    from Some qn have os: "os_mkdir p s = (Some (FileNotFoundError p), s)"
      by (simp add: os_mkdir_def walk_error_def)
    obtain r1 s1 where rec: "mkdir_parents (parent p) s = (r1, s1)"
      by (cases "mkdir_parents (parent p) s")
    have pre: "\<forall>q. prefix q (parent p) \<longrightarrow> \<not> is_file s q \<and> (lookup s q = None \<longrightarrow> q \<notin> denied s)"
      using "1.prems"(2) parent_prefix[of p] by (auto dest: prefix_order.trans)
    from "1.IH"[OF os[symmetric] refl refl pp "1.prems"(1) pre] rec have r1: "r1 = None" by simp
    have pf: "perform (Mkdir (parent p)) s = (r1, s1)" using rec by simp
    note pr = perform_result[OF "1.prems"(1) pf]
    have sp: "blocked s1 p = None"
      using pr(9)[OF r1 refl] na by (simp add: blocked_None_iff parent_strict)
    have "\<not> is_file s1 p" using pr(7)[of p] self(1) by auto
    have den: "lookup s1 p = None \<longrightarrow> p \<notin> denied s1"
      using pr(2) pr(6)[of p] self(2) by auto
    have "fst (mkdir_exist_ok p s1) = None"
    proof (cases "lookup s1 p = None")
      case True
      with sp den have "os_mkdir p s1 = (None, s1\<lparr>nodes := (nodes s1)(p \<mapsto> Dir)\<rparr>)"
        by (simp add: os_mkdir_def)
      then show ?thesis by (simp add: mkdir_exist_ok_def)
    next
      case False
      with \<open>\<not> is_file s1 p\<close> lookup_cases[of s1 p] have d: "is_dir s1 p" by (auto simp: is_dir_def)
      from sp False have "os_mkdir p s1 = (Some (FileExistsError p), s1)"
        by (simp add: os_mkdir_def)
      with d show ?thesis by (simp add: mkdir_exist_ok_def)
    qed
    with os pp rec r1 show ?thesis by (simp add: mkdir_parents.simps[of p s])
  qed
qed

lemma dir_targets_Cons_subset: "set (dir_targets as) \<subseteq> set (dir_targets (a # as))"
  by (cases a) auto

lemma file_targets_Cons_subset: "set (file_targets as) \<subseteq> set (file_targets (a # as))"
  by (cases a) (auto simp: file_targets_def)

lemma clear_step:
  assumes t: "tree s" and p: "perform a s = (None, s1)" and c: "clear s (a # as)"
  shows "clear s1 as"
proof -
  note pr = perform_result[OF t p]
  have dirs: "\<not> is_file s1 q \<and> (lookup s1 q = None \<longrightarrow> q \<notin> denied s1)"
    if d: "d \<in> set (dir_targets as)" and q: "q \<in> set (prefixes d)" for d q
  proof -
    from d have d': "d \<in> set (dir_targets (a # as))" using dir_targets_Cons_subset by blast
    with c q have old: "\<not> is_file s q" "lookup s q = None \<longrightarrow> q \<notin> denied s"
      by (auto simp: clear_def)
    have "\<not> is_file s1 q"
    proof
      assume "is_file s1 q"
      with pr(7)[of q] old(1) obtain c' where a: "a = WriteText q c'" by blast
      then have "q \<in> set (file_targets (a # as))" by (simp add: file_targets_def)
      with c d' have "\<not> prefix q d" by (auto simp: clear_def)
      with q show False by simp
    qed
    moreover have "lookup s1 q = None \<longrightarrow> q \<notin> denied s1"
      using pr(2) pr(6)[of q] old(2) by auto
    ultimately show ?thesis by blast
  qed
  have files: "\<not> is_dir s1 f \<and> f \<notin> denied s1 \<and> (\<forall>d\<in>set (dir_targets as). \<not> prefix f d)"
    if f: "f \<in> set (file_targets as)" for f
  proof -
    from f have f': "f \<in> set (file_targets (a # as))" using file_targets_Cons_subset by blast
    with c have old: "\<not> is_dir s f" "f \<notin> denied s" "\<forall>d\<in>set (dir_targets (a # as)). \<not> prefix f d"
      by (auto simp: clear_def)
    have "\<not> is_dir s1 f"
    proof
      assume "is_dir s1 f"
      then have "lookup s1 f = Some Dir" by (simp add: is_dir_def)
      with pr(8)[of f] old(1) obtain d where "a = Mkdir d" "prefix f d" by (auto simp: is_dir_def)
      with old(3) show False by auto
    qed
    moreover have "f \<notin> denied s1" using pr(2) old(2) by simp
    moreover have "\<forall>d\<in>set (dir_targets as). \<not> prefix f d"
      using old(3) dir_targets_Cons_subset[of as a] by blast
    ultimately show ?thesis by blast
  qed
  show ?thesis unfolding clear_def using dirs files by blast
qed

lemma perform_enabled:
  assumes t: "tree s" and c: "clear s (a # as)" and r: "ready made (a # as)"
    and m: "\<forall>d\<in>set made. \<forall>q. prefix q d \<longrightarrow> lookup s q = Some Dir"
  shows "fst (perform a s) = None"
proof (cases a)
  case (Mkdir d)
  with c have "\<forall>q. prefix q d \<longrightarrow> \<not> is_file s q \<and> (lookup s q = None \<longrightarrow> q \<notin> denied s)"
    by (auto simp: clear_def)
  from mkdir_parents_enabled[OF t this] Mkdir show ?thesis by simp
next
  case (WriteText f content)
  with c have f: "\<not> is_dir s f" "f \<notin> denied s" by (auto simp: clear_def file_targets_def)
  then have na: "\<not> anchor f" by (auto simp: is_dir_def lookup_def)
  from r WriteText obtain d where "d \<in> set made" "prefix (parent f) d" by auto
  with m have "\<forall>q. prefix q (parent f) \<longrightarrow> lookup s q = Some Dir"
    by (auto dest: prefix_order.trans)
  with na have "blocked s f = None" by (simp add: blocked_None_iff parent_strict)
  with f WriteText show ?thesis by (simp add: write_text_def is_dir_def)
qed

lemma run_enabled:
  "tree s \<Longrightarrow> clear s as \<Longrightarrow> ready made as \<Longrightarrow>
   \<forall>d\<in>set made. \<forall>q. prefix q d \<longrightarrow> lookup s q = Some Dir \<Longrightarrow>
   fst (run as s) = None"
proof (induction as arbitrary: s made)
  case Nil
  then show ?case by simp
next
  case (Cons a as)
  from perform_enabled[OF Cons.prems] obtain s1 where p: "perform a s = (None, s1)"
    by (cases "perform a s") auto
  note pr = perform_result[OF Cons.prems(1) p]
  have c1: "clear s1 as" by (rule clear_step[OF Cons.prems(1) p Cons.prems(2)])
  have keep: "\<forall>d\<in>set made. \<forall>q. prefix q d \<longrightarrow> lookup s1 q = Some Dir"
    using Cons.prems(4) pr(4) by blast
  have "fst (run as s1) = None"
  proof (cases a)
    case (Mkdir d)
    with Cons.prems(3) have "ready (d # made) as" by simp
    moreover have "\<forall>d'\<in>set (d # made). \<forall>q. prefix q d' \<longrightarrow> lookup s1 q = Some Dir"
      using keep pr(9)[OF refl Mkdir] by auto
    ultimately show ?thesis using Cons.IH[OF pr(1) c1] by blast
  next
    case (WriteText f content)
    with Cons.prems(3) have "ready made as" by simp
    then show ?thesis using Cons.IH[OF pr(1) c1 _ keep] by blast
  qed
  with p show ?case by simp
qed

lemma map_of_writes_None: "map_of (rev (writes as)) p = None \<longleftrightarrow> p \<notin> set (file_targets as)"
  by (simp add: map_of_eq_None_iff file_targets_def)

text \<open>
  A list of statements that is ready and finds nothing in its way runs to its end, and
  leaves every path as its net effect says.
\<close>

lemma run_outcome:
  assumes "tree s" and "clear s as" and "ready [] as"
  shows "fst (run as s) = None"
    and "lookup (snd (run as s)) p =
       (case map_of (rev (writes as)) p of
          Some c \<Rightarrow> Some (File c)
        | None \<Rightarrow> if (\<exists>d\<in>set (dir_targets as). prefix p d) \<and> lookup s p = None
                  then Some Dir else lookup s p)"
    and "snd (run as s) = s\<lparr>nodes := fold effect as (nodes s)\<rparr>"
proof -
  show ok: "fst (run as s) = None"
    using run_enabled[OF assms, of ] by simp
  then obtain s' where run: "run as s = (None, s')" by (cases "run as s") auto
  show eff: "snd (run as s) = s\<lparr>nodes := fold effect as (nodes s)\<rparr>"
    using run_effect[OF assms(1) run] run by simp
  show "lookup (snd (run as s)) p =
       (case map_of (rev (writes as)) p of
          Some c \<Rightarrow> Some (File c)
        | None \<Rightarrow> if (\<exists>d\<in>set (dir_targets as). prefix p d) \<and> lookup s p = None
                  then Some Dir else lookup s p)"
  proof (cases "anchor p")
    case True
    then have "is_dir s p" by (simp add: is_dir_def lookup_def)
    with assms(2) have "p \<notin> set (file_targets as)" by (auto simp: clear_def)
    then have "map_of (rev (writes as)) p = None" by (simp add: map_of_writes_None)
    with True show ?thesis by (simp add: eff lookup_def)
  next
    case False
    then show ?thesis by (simp add: eff lookup_def fold_effect split: option.splits)
  qed
qed

lemma run_outcome_kinds:
  assumes "tree s" and "clear s as" and "ready [] as"
  shows "is_dir (snd (run as s)) p \<longleftrightarrow> is_dir s p \<or> (\<exists>d\<in>set (dir_targets as). prefix p d)"
    and "is_file (snd (run as s)) p \<longleftrightarrow> is_file s p \<or> p \<in> set (file_targets as)"
proof -
  note out = run_outcome(2)[OF assms, of p]
  show "is_file (snd (run as s)) p \<longleftrightarrow> is_file s p \<or> p \<in> set (file_targets as)"
  proof (cases "map_of (rev (writes as)) p")
    case None
    then have "p \<notin> set (file_targets as)" by (simp add: map_of_writes_None)
    with None out show ?thesis by (auto simp: is_file_iff)
  next
    case (Some c)
    then have "p \<in> set (file_targets as)" using map_of_writes_None[of as p] by auto
    with Some out show ?thesis by (auto simp: is_file_iff)
  qed
  show "is_dir (snd (run as s)) p \<longleftrightarrow> is_dir s p \<or> (\<exists>d\<in>set (dir_targets as). prefix p d)"
  proof (cases "map_of (rev (writes as)) p")
    case None
    have "lookup s p = Some Dir" if "d \<in> set (dir_targets as)" "prefix p d" "lookup s p \<noteq> None" for d
      using assms(2) that lookup_cases[of s p] by (auto simp: clear_def)
    with None out show ?thesis by (auto simp: is_dir_def)
  next
    case (Some c)
    then have "p \<in> set (file_targets as)" using map_of_writes_None[of as p] by auto
    with assms(2) have "\<not> is_dir s p" "\<forall>d\<in>set (dir_targets as). \<not> prefix p d"
      by (auto simp: clear_def)
    with Some out show ?thesis by (auto simp: is_dir_def)
  qed
qed

subsection \<open>The statements of the routine\<close>

lemma below_missing:
  "tree s \<Longrightarrow> lookup s root = None \<Longrightarrow> prefix root p \<Longrightarrow> lookup s p = None"
  by (cases "p = root") (auto simp: tree_def strict_prefix_def)

lemma dir_targets_append [simp]: "dir_targets (as @ bs) = dir_targets as @ dir_targets bs"
  by (induction as rule: dir_targets.induct) auto

lemma writes_append [simp]: "writes (as @ bs) = writes as @ writes bs"
  by (induction as rule: writes.induct) auto

lemma dir_targets_Mkdir [simp]: "dir_targets (map Mkdir ds) = ds"
  by (induction ds) auto

lemma writes_Mkdir [simp]: "writes (map Mkdir ds) = []"
  by (induction ds) auto

lemma dir_targets_statements: "dir_targets (statements root name db auth) = dirs root db auth"
  by (simp add: statements_def)

lemma file_targets_statements:
  "set (file_targets (statements root name db auth)) = (@) root ` set (expected_files db auth)"
  by (cases db; cases auth)
    (auto simp: statements_def file_targets_def expected_files_def base_files_def
      database_files_def auth_files_def)

lemma dirs_closure:
  "(\<exists>d\<in>set (dirs root db auth). prefix p d)
     \<longleftrightarrow> prefix p root \<or> p \<in> (@) root ` set (expected_directories db auth)"
  by (cases db; cases auth)
    (auto simp: dirs_def expected_directories_def base_directories_def
      database_directories_def auth_directories_def prefix_append prefix_Cons)

lemma ready_Mkdir_append: "ready made (map Mkdir ds @ ws) = ready (rev ds @ made) ws"
  by (induction ds arbitrary: made) auto

lemma anchor_snoc: "anchor (p @ [x]) \<longleftrightarrow> p = [] \<and> (x = ''/'' \<or> x = ''//'')"
  by (cases p) (auto simp: anchor_def)

lemma parent_snoc: "x \<noteq> ''/'' \<Longrightarrow> x \<noteq> ''//'' \<Longrightarrow> parent (p @ [x]) = p"
  by (simp add: parent_def anchor_snoc)

lemma parent_snoc2: "parent (p @ [a, b]) = p @ [a]"
  by (simp add: parent_def anchor_def butlast_append)

lemma parent_snoc3: "parent (p @ [a, b, c]) = p @ [a, b]"
  by (simp add: parent_def anchor_def butlast_append)

lemma ready_statements: "ready [] (statements root name db auth)"
  by (cases db; cases auth)
    (simp_all add: statements_def dirs_def ready_Mkdir_append parent_snoc parent_snoc2 parent_snoc3)

lemma dirs_below: "d \<in> set (dirs root db auth) \<Longrightarrow> prefix root d"
  by (auto simp: dirs_def split: if_splits)

lemma expected_disjoint:
  "r \<in> set (expected_files db auth) \<Longrightarrow> r \<noteq> [] \<and> r \<notin> set (expected_directories db auth)"
  by (cases db; cases auth)
    (auto simp: expected_files_def base_files_def database_files_def auth_files_def
      expected_directories_def base_directories_def database_directories_def auth_directories_def)

lemma clear_statements:
  assumes "tree s" and "creatable s root" and "fault_free s"
  shows "clear s (statements root name db auth)"
proof -
  from assms(2) have missing: "lookup s root = None" and way: "\<forall>q. prefix q root \<longrightarrow> \<not> is_file s q"
    by (auto simp: creatable_def path_exists_def)
  have below: "lookup s p = None" if "prefix root p" for p
    using below_missing[OF assms(1) missing that] .
  have dirs: "\<not> is_file s q \<and> (lookup s q = None \<longrightarrow> q \<notin> denied s)"
    if "d \<in> set (dirs root db auth)" "q \<in> set (prefixes d)" for d q
  proof -
    from that have "prefix root d" "prefix q d" by (auto dest: dirs_below)
    then have "prefix q root \<or> prefix root q" using prefix_same_cases by blast
    then have "\<not> is_file s q" using way below[of q] by (auto simp: is_file_iff)
    with assms(3) show ?thesis by (simp add: fault_free_def)
  qed
  have files: "\<not> is_dir s f \<and> f \<notin> denied s \<and> (\<forall>d\<in>set (dirs root db auth). \<not> prefix f d)"
    if "f \<in> set (file_targets (statements root name db auth))" for f
  proof -
    from that obtain r where r: "f = root @ r" "r \<in> set (expected_files db auth)"
      by (auto simp: file_targets_statements)
    have "\<not> is_dir s f" using below[of f] r(1) by (simp add: is_dir_def)
    moreover have "\<not> (\<exists>d\<in>set (dirs root db auth). prefix f d)"
      using expected_disjoint[OF r(2)] r(1) by (auto simp: dirs_closure)
    ultimately show ?thesis using assms(3) by (auto simp: fault_free_def)
  qed
  show ?thesis
    unfolding clear_def dir_targets_statements using dirs files by blast
qed

lemma tree_empty_disk: "tree empty_disk"
  by (auto simp: tree_def empty_disk_def lookup_def anchor_def strict_prefix_def prefix_Cons split: if_splits)

lemma fresh_run_succeeds:
  assumes "tree s" and "creatable s root" and "fault_free s"
  shows "fst (run (statements root name db auth) s) = None"
  using run_outcome(1)[OF assms(1) clear_statements[OF assms] ready_statements] .

subsection \<open>The command line\<close>

lemma main_exists:
  "path_exists s (destination a) \<Longrightarrow>
     main a s = \<lparr>exit_code = 1, stdout = [],
       stderr = [''Error: Directory '' @ [CHR 0x27] @ str_path (destination a) @ [CHR 0x27] @ '' already exists''],
       disk = s\<rparr>"
  by (simp add: main_def)

lemma main_success:
  "\<not> path_exists s (destination a) \<Longrightarrow>
   run (statements (destination a) (project_name a) (with_database a) (with_auth a)) s = (None, s') \<Longrightarrow>
     main a s = \<lparr>exit_code = 0, stdout = success_report a (destination a), stderr = [], disk = s'\<rparr>"
  by (simp add: main_def create_project_structure_def)

lemma main_failure:
  "\<not> path_exists s (destination a) \<Longrightarrow>
   run (statements (destination a) (project_name a) (with_database a) (with_auth a)) s = (Some e, s') \<Longrightarrow>
     main a s = \<lparr>exit_code = 1, stdout = [], stderr = [''Error creating project: '' @ str_error e], disk = s'\<rparr>"
  by (simp add: main_def create_project_structure_def)

lemma main_exit_0D:
  assumes "exit_code (main a s) = 0"
  obtains s' where "\<not> path_exists s (destination a)"
    and "run (statements (destination a) (project_name a) (with_database a) (with_auth a)) s = (None, s')"
    and "main a s = \<lparr>exit_code = 0, stdout = success_report a (destination a), stderr = [], disk = s'\<rparr>"
proof -
  have ne: "\<not> path_exists s (destination a)"
    using assms by (auto simp: main_def)
  obtain r s' where run: "run (statements (destination a) (project_name a) (with_database a) (with_auth a)) s = (r, s')"
    by (cases "run (statements (destination a) (project_name a) (with_database a) (with_auth a)) s")
  have "r = None"
  proof (cases r)
    case (Some e)
    with assms main_failure[OF ne, of e s'] run show ?thesis by simp
  qed simp
  with ne run main_success[OF ne, of s'] that show thesis by blast
qed

lemma root_in_dirs: "root @ [''app''] \<in> set (dirs root db auth)"
  by (simp add: dirs_def)

text \<open>After a run that raised nothing, everything below the destination is what the
  statements say, whatever the file system held elsewhere.\<close>

lemma successful_run_below:
  assumes "tree s" and "lookup s root = None"
    and "run (statements root name db auth) s = (None, s')" and "prefix root p"
  shows "lookup s' p =
     (case map_of (rev (writes (statements root name db auth))) p of
        Some c \<Rightarrow> Some (File c)
      | None \<Rightarrow> if \<exists>d\<in>set (dirs root db auth). prefix p d then Some Dir else None)"
proof -
  have s': "s' = s\<lparr>nodes := fold effect (statements root name db auth) (nodes s)\<rparr>"
    by (rule run_effect[OF assms(1,3)])
  have none: "lookup s p = None" by (rule below_missing[OF assms(1,2,4)])
  then have "\<not> anchor p" "nodes s p = None" by (auto simp: lookup_def split: if_splits)
  then show ?thesis
    by (simp add: s' lookup_def fold_effect dir_targets_statements split: option.splits)
qed

lemma distinct_file_targets: "distinct (file_targets (statements root name db auth))"
  by (cases db; cases auth) (simp_all add: statements_def file_targets_def)

lemma map_of_writes:
  assumes "distinct (file_targets as)" and "WriteText f c \<in> set as"
  shows "map_of (rev (writes as)) f = Some c"
proof -
  from assms(2) have "(f, c) \<in> set (rev (writes as))" by (simp add: set_writes)
  moreover from assms(1) have "distinct (map fst (rev (writes as)))"
    by (simp add: file_targets_def rev_map[symmetric])
  ultimately show ?thesis by (rule map_of_is_SomeI[rotated])
qed

lemma main_fresh:
  assumes "tree s" and "creatable s (destination a)" and "fault_free s"
  shows "exit_code (main a s) = 0"
proof -
  from assms(2) have ne: "\<not> path_exists s (destination a)" by (simp add: creatable_def)
  obtain s' where "run (statements (destination a) (project_name a)
      (with_database a) (with_auth a)) s = (None, s')"
    using fresh_run_succeeds[OF assms, of "project_name a" "with_database a" "with_auth a"]
    by (cases "run (statements (destination a) (project_name a)
      (with_database a) (with_auth a)) s") auto
  from main_success[OF ne this] show ?thesis by simp
qed

lemma destination_demo: "destination demo_args = [''demo'']"
  by (simp add: destination_def demo_args_def joinpath_def Path_def splitroot_def)

lemma creatable_empty_disk: "creatable empty_disk [''demo'']" "fault_free empty_disk"
  by (simp_all add: creatable_def fault_free_def path_exists_def is_file_def lookup_def
      anchor_def empty_disk_def)

lemma tree_busy_disk: "tree busy_disk"
  by (auto simp: tree_def busy_disk_def lookup_def anchor_def strict_prefix_def prefix_Cons
      split: if_splits)

lemma creatable_busy_disk: "creatable busy_disk [''demo'']" "fault_free busy_disk"
  by (simp_all add: creatable_def fault_free_def path_exists_def is_file_def lookup_def
      anchor_def busy_disk_def)

lemma tree_partial_disk: "tree partial_disk"
  by (auto simp: tree_def partial_disk_def lookup_def anchor_def strict_prefix_def prefix_Cons
      split: if_splits)

lemma clear_compatible:
  assumes "fault_free s" and "compatible s root db auth"
  shows "clear s (statements root name db auth)"
proof -
  have dirs: "\<not> is_file s q \<and> (lookup s q = None \<longrightarrow> q \<notin> denied s)"
    if "d \<in> set (dirs root db auth)" "q \<in> set (prefixes d)" for d q
  proof -
    from that have "\<exists>d\<in>set (dirs root db auth). prefix q d" by auto
    then have "prefix q root \<or> q \<in> (@) root ` set (expected_directories db auth)"
      by (simp add: dirs_closure)
    with assms(2) have "\<not> is_file s q" by (auto simp: compatible_def)
    with assms(1) show ?thesis by (simp add: fault_free_def)
  qed
  have files: "\<not> is_dir s f \<and> f \<notin> denied s \<and> (\<forall>d\<in>set (dirs root db auth). \<not> prefix f d)"
    if "f \<in> set (file_targets (statements root name db auth))" for f
  proof -
    from that obtain r where r: "f = root @ r" "r \<in> set (expected_files db auth)"
      by (auto simp: file_targets_statements)
    have "\<not> is_dir s f" using assms(2) r by (auto simp: compatible_def)
    moreover have "\<not> (\<exists>d\<in>set (dirs root db auth). prefix f d)"
      using expected_disjoint[OF r(2)] r(1) by (auto simp: dirs_closure)
    ultimately show ?thesis using assms(1) by (auto simp: fault_free_def)
  qed
  show ?thesis
    unfolding clear_def dir_targets_statements using dirs files by blast
qed

subsection \<open>What a run that fails leaves behind\<close>

lemma run_made_dirs:
  "tree s \<Longrightarrow> run as s = (None, s') \<Longrightarrow> Mkdir d \<in> set as \<Longrightarrow> lookup s' d = Some Dir"
proof (induction as arbitrary: s)
  case Nil
  then show ?case by simp
next
  case (Cons a as)
  from Cons.prems(2) show ?case
  proof (cases rule: run_Cons_cases)
    case (stop e)
    then show ?thesis by simp
  next
    case (go s1)
    note pr = perform_result[OF Cons.prems(1) go(1)]
    show ?thesis
    proof (cases "a = Mkdir d")
      case True
      have "lookup s1 d = Some Dir" by (rule pr(9)[OF refl True prefix_order.refl])
      then show ?thesis by (rule run_keeps_dir[OF pr(1) go(2)])
    next
      case False
      with Cons.prems(3) have "Mkdir d \<in> set as" by simp
      then show ?thesis by (rule Cons.IH[OF pr(1) go(2)])
    qed
  qed
qed

lemma run_written_files:
  "tree s \<Longrightarrow> run as s = (None, s') \<Longrightarrow> distinct (file_targets as) \<Longrightarrow>
     WriteText f c \<in> set as \<Longrightarrow> lookup s' f = Some (File c)"
proof (induction as arbitrary: s)
  case Nil
  then show ?case by simp
next
  case (Cons a as)
  from Cons.prems(2) show ?case
  proof (cases rule: run_Cons_cases)
    case (stop e)
    then show ?thesis by simp
  next
    case (go s1)
    note pr = perform_result[OF Cons.prems(1) go(1)]
    show ?thesis
    proof (cases "a = WriteText f c")
      case True
      with go(1) have "lookup s f \<noteq> Some Dir" "s1 = s\<lparr>nodes := (nodes s)(f \<mapsto> File c)\<rparr>"
        by (auto simp: write_text_None)
      then have "lookup s1 f = Some (File c)" by (auto simp: lookup_def)
      moreover from True Cons.prems(3) have "f \<notin> set (file_targets as)"
        by (simp add: file_targets_def)
      ultimately show ?thesis by (rule run_keeps_file[OF pr(1) go(2)])
    next
      case False
      with Cons.prems(4) have "WriteText f c \<in> set as" by simp
      moreover from Cons.prems(3) have "distinct (file_targets as)"
        by (cases a) (simp_all add: file_targets_def)
      ultimately show ?thesis using Cons.IH[OF pr(1) go(2)] by blast
    qed
  qed
qed

lemma file_targets_append: "file_targets (as @ bs) = file_targets as @ file_targets bs"
  by (simp add: file_targets_def)

lemma tree_readonly_disk: "tree readonly_disk"
  by (auto simp: tree_def readonly_disk_def lookup_def anchor_def strict_prefix_def prefix_Cons
      split: if_splits)

lemma demo_fields:
  "project_name demo_args = ''demo''" "with_database demo_args = False" "with_auth demo_args = False"
  by (simp_all add: demo_args_def)

lemmas run_on_sample =
  mkdir_parents.simps os_mkdir_def mkdir_exist_ok_def write_text_def blocked_def
  lookup_def anchor_def parent_def is_dir_def walk_error_def path_exists_def

subsection \<open>Reordering the statements\<close>

lemma statements_shape:
  "statements root name db auth =
     map Mkdir (dirs root db auth)
     @ map (\<lambda>(f, c). WriteText f c) (writes (statements root name db auth))"
  by (cases db; cases auth) (simp_all add: statements_def)

lemma mset_writes:
  "mset (writes as) =
     image_mset (\<lambda>a. case a of WriteText f c \<Rightarrow> (f, c) | Mkdir d \<Rightarrow> (d, []))
       (filter_mset (\<lambda>a. case a of WriteText f c \<Rightarrow> True | Mkdir d \<Rightarrow> False) (mset as))"
  by (induction as rule: writes.induct) auto

lemma reorder_targets:
  assumes "mset as = mset bs"
  shows "set (dir_targets as) = set (dir_targets bs)"
    and "set (writes as) = set (writes bs)"
    and "set (file_targets as) = set (file_targets bs)"
    and "distinct (file_targets as) \<longleftrightarrow> distinct (file_targets bs)"
proof -
  from assms have s: "set as = set bs" by (rule mset_eq_setD)
  show "set (dir_targets as) = set (dir_targets bs)" by (simp add: set_dir_targets s)
  show w: "set (writes as) = set (writes bs)" by (simp add: set_writes s)
  then show "set (file_targets as) = set (file_targets bs)" by (simp add: file_targets_def)
  have "mset (writes as) = mset (writes bs)" by (simp add: mset_writes assms)
  then have "mset (file_targets as) = mset (file_targets bs)"
    unfolding file_targets_def by (metis mset_map)
  then show "distinct (file_targets as) \<longleftrightarrow> distinct (file_targets bs)"
    by (rule mset_eq_imp_distinct_iff)
qed

text \<open>
  Two lists of the same statements, each file written once, have the same net
  effect: what a run leaves does not depend on their order.
\<close>

lemma fold_effect_reorder:
  assumes "mset as = mset bs" and "distinct (file_targets bs)"
  shows "fold effect as m = fold effect bs m"
proof
  fix q
  note r = reorder_targets[OF assms(1)]
  have "distinct (map fst (rev (writes as)))" "distinct (map fst (rev (writes bs)))"
    using assms(2) r(4) by (simp_all add: file_targets_def rev_map[symmetric])
  then have eq: "map_of (rev (writes as)) = map_of (rev (writes bs))"
    using r(2) by (simp add: map_of_inject_set)
  show "fold effect as m q = fold effect bs m q"
    by (simp only: fold_effect r(1) eq)
qed

lemma clear_reorder: "mset as = mset bs \<Longrightarrow> clear s bs \<Longrightarrow> clear s as"
  using reorder_targets(1,3)[of as bs] by (simp add: clear_def)

lemma run_reorder:
  assumes "tree s" and "clear s bs" and "ready [] bs" and "distinct (file_targets bs)"
    and "mset as = mset bs" and "ready [] as"
  shows "run as s = run bs s"
proof -
  note a = run_outcome[OF assms(1) clear_reorder[OF assms(5,2)] assms(6)]
  note b = run_outcome[OF assms(1,2,3)]
  have "fst (run as s) = fst (run bs s)" using a(1) b(1) by simp
  moreover have "snd (run as s) = snd (run bs s)"
    using a(3) b(3) fold_effect_reorder[OF assms(5,4)] by simp
  ultimately show ?thesis by (rule prod_eqI)
qed

subsection \<open>The lines of the generated texts\<close>

lemma split_on_nonempty: "split_on c xs \<noteq> []"
  by (induction xs) (auto split: list.splits)

lemma split_on_append: "split_on c (xs @ c # ys) = split_on c xs @ split_on c ys"
proof (induction xs)
  case Nil
  then show ?case by simp
next
  case (Cons x xs)
  obtain w ws where w: "split_on c xs = w # ws"
    using split_on_nonempty[of c xs] by (cases "split_on c xs") auto
  show ?case by (simp add: Cons.IH w)
qed

lemma split_on_no_sep: "c \<notin> set xs \<Longrightarrow> split_on c xs = [xs]"
  by (induction xs) auto

lemma create_app_init_eq:
  "create_app_init db auth =
     app_init_imports @ (if db then app_init_database_import else [])
       @ (if auth then app_init_auth_import else [])
       @ app_init_config @ (if db then app_init_database_setup else [])
       @ (if auth then app_init_auth_setup else [])
       @ app_init_blueprints @ (if auth then app_init_auth_blueprint else [])
       @ app_init_return"
  by (simp add: create_app_init_def Let_def)

lemma create_readme_eq:
  "create_readme name db auth =
     ''# '' @ name @ readme_heading
       @ (if db then readme_database_features else [])
       @ (if auth then readme_auth_features else [])
       @ readme_setup_steps @ (if db then readme_database_step else []) @ readme_run_step"
  by (simp add: create_readme_def Let_def)

lemmas app_init_chunks =
  app_init_imports_def app_init_config_def app_init_database_import_def app_init_database_setup_def
  app_init_auth_import_def app_init_auth_setup_def app_init_blueprints_def
  app_init_auth_blueprint_def app_init_return_def

lemma split_on_unlines:
  "list_all (\<lambda>l. CHR 0x0A \<notin> set l) ls \<Longrightarrow>
     split_on (CHR 0x0A) (unlines ls @ t) = ls @ split_on (CHR 0x0A) t"
proof (induction ls)
  case Nil
  then show ?case by (simp add: unlines_def)
next
  case (Cons l ls)
  then have "split_on (CHR 0x0A) (l @ CHR 0x0A # (unlines ls @ t)) = [l] @ (ls @ split_on (CHR 0x0A) t)"
    by (simp only: split_on_append) (simp add: split_on_no_sep)
  then show ?case by (simp add: unlines_def)
qed

lemma lines_of_unlines_append:
  "list_all (\<lambda>l. CHR 0x0A \<notin> set l) ls \<Longrightarrow> lines_of (unlines ls @ t) = ls @ lines_of t"
  by (simp add: lines_of_def split_on_unlines)

lemma lines_of_unlines_end:
  "list_all (\<lambda>l. CHR 0x0A \<notin> set l) ls \<Longrightarrow> lines_of (unlines ls) = ls @ [[]]"
  using lines_of_unlines_append[of ls "[]"] by (simp add: lines_of_def)

lemma lines_of_Cons:
  "lines_of (c # t) =
     (if c = CHR 0x0A then [] # lines_of t
      else (case lines_of t of [] \<Rightarrow> [[c]] | w # ws \<Rightarrow> (c # w) # ws))"
  by (simp add: lines_of_def)

lemma lines_of_Nil: "lines_of [] = [[]]"
  by (simp add: lines_of_def)

lemmas lines_calc = lines_of_unlines_append lines_of_unlines_end lines_of_Cons lines_of_Nil

lemma tl_unlines: "tl (unlines ([] # ls)) = unlines ls"
  by (simp add: unlines_def)

lemma readme_heading_starts: "readme_heading = CHR 0x0A # tl readme_heading"
  by (simp add: readme_heading_def unlines_def)

lemma lines_of_readme:
  "lines_of (create_readme name db auth) =
     lines_of (''# '' @ name)
     @ lines_of (tl readme_heading
         @ (if db then readme_database_features else [])
         @ (if auth then readme_auth_features else [])
         @ readme_setup_steps @ (if db then readme_database_step else []) @ readme_run_step)"
proof -
  have "create_readme name db auth =
      (''# '' @ name) @ CHR 0x0A # (tl readme_heading
         @ (if db then readme_database_features else [])
         @ (if auth then readme_auth_features else [])
         @ readme_setup_steps @ (if db then readme_database_step else []) @ readme_run_step)"
    by (subst create_readme_eq, subst readme_heading_starts) simp
  then show ?thesis
    unfolding lines_of_def by (simp only: split_on_append)
qed

lemmas readme_chunks =
  readme_heading_def readme_database_features_def readme_auth_features_def
  readme_setup_steps_def readme_database_step_def readme_run_step_def

lemma app_init_database_inserts:
  "subseq (lines_of (create_app_init False auth)) (lines_of (create_app_init True auth))"
  by (cases auth) (simp_all add: create_app_init_eq app_init_chunks lines_calc)

lemma app_init_auth_inserts:
  "subseq (lines_of (create_app_init db False)) (lines_of (create_app_init db True))"
  by (cases db) (simp_all add: create_app_init_eq app_init_chunks lines_calc)

lemma readme_database_inserts:
  "subseq (lines_of (create_readme name False auth)) (lines_of (create_readme name True auth))"
  unfolding lines_of_readme subseq_append'
  by (cases auth) (simp_all add: readme_chunks tl_unlines lines_calc)

lemma readme_auth_inserts:
  "subseq (lines_of (create_readme name db False)) (lines_of (create_readme name db True))"
  unfolding lines_of_readme subseq_append'
  by (cases db) (simp_all add: readme_chunks tl_unlines lines_calc)

lemma requirements_database_inserts:
  "subseq (lines_of (create_requirements False auth)) (lines_of (create_requirements True auth))"
  by (cases auth) (simp_all add: create_requirements_def lines_calc)

lemma requirements_auth_appends:
  "prefix (create_requirements db False) (create_requirements db True)"
  by (cases db) (simp_all add: create_requirements_def)

lemma dirs_inserts:
  "subseq (dirs root False auth) (dirs root True auth)"
  "prefix (dirs root db False) (dirs root db True)"
  by (cases auth; simp add: dirs_def) (cases db; simp add: dirs_def)

lemma file_targets_insert:
  "subseq (file_targets (statements root name False auth)) (file_targets (statements root name True auth))"
  "subseq (file_targets (statements root name db False)) (file_targets (statements root name db True))"
  by (cases auth; simp add: statements_def file_targets_def)
     (cases db; simp add: statements_def file_targets_def)

lemma other_files_same:
  "(f, c) \<in> set (writes (statements root name db auth)) \<Longrightarrow>
   f \<notin> {root @ [''app'', ''__init__.py''], root @ [''requirements.txt''], root @ [''README.md'']} \<Longrightarrow>
   (db \<longrightarrow> db') \<Longrightarrow> (auth \<longrightarrow> auth') \<Longrightarrow>
   (f, c) \<in> set (writes (statements root name db' auth'))"
  by (cases db; cases auth; cases db'; cases auth') (auto simp: statements_def)

lemmas bullets_defs =
  expected_bullets_def base_bullets_def database_bullets_def auth_bullets_def

subsection \<open>The build files\<close>















section \<open>The set of created paths\<close>

text \<open>
  C1. On a destination that can be created, in a file system without faults, the
  generation routine raises nothing, whatever the project name and the two toggles,
  and it creates exactly the expected paths: afterwards the directories are the
  earlier ones, the destination with its missing ancestors, and the expected
  directories below it (the base set, the database set iff \<open>with_database\<close>, the
  auth set iff \<open>with_auth\<close>); the regular files are the earlier ones and the
  expected files below the destination, gated the same way.
\<close>

theorem creates_expected_paths:
  assumes "tree s" and "creatable s root" and "fault_free s"
  shows "fst (create_project_structure root name db auth s) = None
    \<and> (\<forall>p. is_dir (snd (create_project_structure root name db auth s)) p \<longleftrightarrow>
          is_dir s p \<or> prefix p root \<or> p \<in> (@) root ` set (expected_directories db auth))
    \<and> (\<forall>p. is_file (snd (create_project_structure root name db auth s)) p \<longleftrightarrow>
          is_file s p \<or> p \<in> (@) root ` set (expected_files db auth))"
proof -
  note c = clear_statements[OF assms, of name db auth]
  note r = ready_statements[of root name db auth]
  show ?thesis
    unfolding create_project_structure_def
    using run_outcome(1)[OF assms(1) c r] run_outcome_kinds[OF assms(1) c r]
    by (simp add: dir_targets_statements file_targets_statements dirs_closure)
qed

theorem creates_expected_paths_witness:
  "tree empty_disk \<and> creatable empty_disk [''demo''] \<and> fault_free empty_disk
   \<and> fst (create_project_structure [''demo''] ''demo'' True False empty_disk) = None
   \<and> is_dir (snd (create_project_structure [''demo''] ''demo'' True False empty_disk)) [''demo'', ''app'', ''static'']
   \<and> is_dir (snd (create_project_structure [''demo''] ''demo'' True False empty_disk)) [''demo'', ''migrations'']
   \<and> is_file (snd (create_project_structure [''demo''] ''demo'' True False empty_disk)) [''demo'', ''app'', ''models'', ''user.py'']
   \<and> \<not> is_dir (snd (create_project_structure [''demo''] ''demo'' True False empty_disk)) [''demo'', ''app'', ''auth'']
   \<and> \<not> is_file (snd (create_project_structure [''demo''] ''demo'' True False empty_disk)) [''demo'', ''app'', ''auth'', ''routes.py'']"
proof -
  have h: "creatable empty_disk [''demo'']" "fault_free empty_disk"
    by (simp_all add: creatable_def fault_free_def path_exists_def is_file_def lookup_def anchor_def empty_disk_def)
  have e: "is_dir empty_disk p \<longleftrightarrow> anchor p" "\<not> is_file empty_disk p" for p
    by (simp_all add: is_dir_def is_file_def lookup_def empty_disk_def)
  show ?thesis
    using creates_expected_paths[OF tree_empty_disk h, of "''demo''" True False] tree_empty_disk h
    by (simp add: e anchor_def expected_directories_def expected_files_def base_directories_def
        database_directories_def base_files_def database_files_def image_iff prefix_Cons)
qed

section \<open>An existing destination\<close>

text \<open>
  C2. When the destination exists, the program exits with code 1, prints nothing on
  the output stream and one line on the error stream, and leaves the file system
  exactly as it found it. So after a run that succeeded, a second run with the same
  arguments fails and leaves the output of the first run as it is.
\<close>

theorem existing_destination_untouched:
  "(path_exists s (destination a) \<longrightarrow>
      exit_code (main a s) = 1 \<and> stdout (main a s) = [] \<and> stderr (main a s) \<noteq> [] \<and> disk (main a s) = s)
   \<and> (tree s \<and> exit_code (main a s) = 0 \<longrightarrow>
      exit_code (main a (disk (main a s))) = 1 \<and> disk (main a (disk (main a s))) = disk (main a s))"
proof (intro conjI impI)
  assume "tree s \<and> exit_code (main a s) = 0"
  then have t: "tree s" and e: "exit_code (main a s) = 0" by simp_all
  from e obtain s' where ne: "\<not> path_exists s (destination a)"
    and run: "run (statements (destination a) (project_name a) (with_database a) (with_auth a)) s = (None, s')"
    and m: "main a s = \<lparr>exit_code = 0, stdout = success_report a (destination a), stderr = [], disk = s'\<rparr>"
    by (rule main_exit_0D)
  from ne have missing: "lookup s (destination a) = None" by (simp add: path_exists_def)
  have "\<exists>d\<in>set (dirs (destination a) (with_database a) (with_auth a)). prefix (destination a) d"
    using root_in_dirs[of "destination a"] by (intro bexI[of _ "destination a @ [''app'']"]) simp_all
  then have "lookup s' (destination a) \<noteq> None"
    using successful_run_below[OF t missing run prefix_order.refl]
    by (simp split: option.splits)
  then have ex: "path_exists s' (destination a)" by (simp add: path_exists_def)
  show "exit_code (main a (disk (main a s))) = 1" using main_exists[OF ex] m by simp
  show "disk (main a (disk (main a s))) = disk (main a s)" using main_exists[OF ex] m by simp
qed (simp_all add: main_exists)

theorem existing_destination_untouched_witness:
  "path_exists (empty_disk\<lparr>nodes := [[''demo''] \<mapsto> File ''mine'']\<rparr>) (destination demo_args)
   \<and> exit_code (main demo_args (empty_disk\<lparr>nodes := [[''demo''] \<mapsto> File ''mine'']\<rparr>)) = 1
   \<and> disk (main demo_args (empty_disk\<lparr>nodes := [[''demo''] \<mapsto> File ''mine'']\<rparr>))
       = empty_disk\<lparr>nodes := [[''demo''] \<mapsto> File ''mine'']\<rparr>
   \<and> tree empty_disk \<and> exit_code (main demo_args empty_disk) = 0
   \<and> exit_code (main demo_args (disk (main demo_args empty_disk))) = 1
   \<and> disk (main demo_args (disk (main demo_args empty_disk))) = disk (main demo_args empty_disk)"
proof -
  have d: "destination demo_args = [''demo'']"
    by (simp add: destination_def demo_args_def joinpath_def Path_def splitroot_def)
  have ex: "path_exists (empty_disk\<lparr>nodes := [[''demo''] \<mapsto> File ''mine'']\<rparr>) (destination demo_args)"
    by (simp add: d path_exists_def anchor_def)
  have c: "creatable empty_disk (destination demo_args)" "fault_free empty_disk"
    by (simp_all add: d creatable_def fault_free_def path_exists_def is_file_def lookup_def anchor_def empty_disk_def)
  have ne: "\<not> path_exists empty_disk (destination demo_args)"
    using c(1) by (simp add: creatable_def)
  obtain s' where "run (statements (destination demo_args) (project_name demo_args)
      (with_database demo_args) (with_auth demo_args)) empty_disk = (None, s')"
    using fresh_run_succeeds[OF tree_empty_disk c, of "project_name demo_args"
        "with_database demo_args" "with_auth demo_args"]
    by (cases "run (statements (destination demo_args) (project_name demo_args)
      (with_database demo_args) (with_auth demo_args)) empty_disk") auto
  from main_success[OF ne this] have ok: "exit_code (main demo_args empty_disk) = 0" by simp
  show ?thesis
    using existing_destination_untouched[of "empty_disk\<lparr>nodes := [[''demo''] \<mapsto> File ''mine'']\<rparr>" demo_args]
      existing_destination_untouched[of empty_disk demo_args] ex ok tree_empty_disk
    by simp
qed

section \<open>Exit codes\<close>



section \<open>A failure partway\<close>

text \<open>
  C4. When a statement of the generation routine raises, the program prints the
  error on the error stream and exits with code 1, and the file system it leaves is
  the one the failing statement left: nothing is rolled back. Every directory made
  and every file written by the statements before the failing one is still there,
  with its text, and no entry that existed before the run is gone.
\<close>

theorem failure_keeps_partial_output:
  assumes "tree s" and "\<not> path_exists s (destination a)"
    and "fst (create_project_structure (destination a) (project_name a)
           (with_database a) (with_auth a) s) = Some e"
  shows "exit_code (main a s) = 1
    \<and> stderr (main a s) = [''Error creating project: '' @ str_error e]
    \<and> disk (main a s) = snd (create_project_structure (destination a) (project_name a)
           (with_database a) (with_auth a) s)
    \<and> (\<exists>before failing rest.
          statements (destination a) (project_name a) (with_database a) (with_auth a)
            = before @ failing # rest
          \<and> fst (run before s) = None
          \<and> perform failing (snd (run before s)) = (Some e, disk (main a s))
          \<and> (\<forall>d. Mkdir d \<in> set before \<longrightarrow> is_dir (disk (main a s)) d)
          \<and> (\<forall>f c. WriteText f c \<in> set before \<longrightarrow> lookup (disk (main a s)) f = Some (File c)))
    \<and> {p. path_exists s p} \<subseteq> {p. path_exists (disk (main a s)) p}"
proof -
  let ?st = "statements (destination a) (project_name a) (with_database a) (with_auth a)"
  obtain s' where run: "run ?st s = (Some e, s')"
    using assms(3) by (cases "run ?st s") (auto simp: create_project_structure_def)
  note m = main_failure[OF assms(2) run]
  from run_failure_split[OF run] obtain before failing rest s1 where
    split: "?st = before @ failing # rest" and b: "run before s = (None, s1)"
    and f: "perform failing s1 = (Some e, s')" by blast
  have t1: "tree s1" using run_tree[OF assms(1) b] by simp
  note pr = perform_result[OF t1 f]
  have dist: "distinct (file_targets before)"
    using distinct_file_targets[of "destination a" "project_name a" "with_database a" "with_auth a"]
    by (simp add: split file_targets_append)
  have dirs: "is_dir s' d" if "Mkdir d \<in> set before" for d
    using pr(4)[OF run_made_dirs[OF assms(1) b that]] by (simp add: is_dir_def)
  have files: "lookup s' f = Some (File c)" if "WriteText f c \<in> set before" for f c
  proof -
    have "lookup s1 f = Some (File c)" by (rule run_written_files[OF assms(1) b dist(1) that])
    moreover have "\<forall>c'. failing \<noteq> WriteText f c'"
    proof (intro allI notI)
      fix c' assume "failing = WriteText f c'"
      moreover from that have "f \<in> set (file_targets before)"
        by (auto simp: file_targets_def set_writes image_iff)
      moreover have "distinct (file_targets (before @ failing # rest))"
        using distinct_file_targets[of "destination a" "project_name a" "with_database a" "with_auth a"]
        by (simp add: split)
      ultimately show False by (auto simp: file_targets_append file_targets_def)
    qed
    ultimately show ?thesis by (rule pr(5))
  qed
  have keep: "path_exists s' p" if "path_exists s p" for p
    using that run_keeps_missing[OF assms(1) run, of p]
    by (cases "lookup s' p") (auto simp: path_exists_def)
  have "\<exists>before failing rest.
          ?st = before @ failing # rest
          \<and> fst (run before s) = None
          \<and> perform failing (snd (run before s)) = (Some e, s')
          \<and> (\<forall>d. Mkdir d \<in> set before \<longrightarrow> is_dir s' d)
          \<and> (\<forall>f c. WriteText f c \<in> set before \<longrightarrow> lookup s' f = Some (File c))"
    using split b f dirs files by (intro exI[of _ before] exI[of _ failing] exI[of _ rest]) simp
  then show ?thesis
    using keep run by (auto simp: m create_project_structure_def)
qed

theorem failure_keeps_partial_output_witness:
  "tree readonly_disk \<and> \<not> path_exists readonly_disk (destination demo_args)
   \<and> fst (create_project_structure (destination demo_args) (project_name demo_args)
           (with_database demo_args) (with_auth demo_args) readonly_disk)
       = Some (PermissionError [''demo'', ''config.py''])
   \<and> exit_code (main demo_args readonly_disk) = 1
   \<and> stderr (main demo_args readonly_disk)
       = [''Error creating project: '' @ str_error (PermissionError [''demo'', ''config.py''])]
   \<and> disk (main demo_args readonly_disk)
       = snd (create_project_structure (destination demo_args) (project_name demo_args)
           (with_database demo_args) (with_auth demo_args) readonly_disk)
   \<and> {p. path_exists readonly_disk p} \<subseteq> {p. path_exists (disk (main demo_args readonly_disk)) p}"
proof -
  have ne: "\<not> path_exists readonly_disk (destination demo_args)"
    by (simp add: destination_demo path_exists_def lookup_def anchor_def readonly_disk_def)
  have f: "fst (create_project_structure (destination demo_args) (project_name demo_args)
           (with_database demo_args) (with_auth demo_args) readonly_disk)
       = Some (PermissionError [''demo'', ''config.py''])"
    by (simp add: destination_demo demo_fields create_project_structure_def statements_def dirs_def
        readonly_disk_def run_on_sample)
  show ?thesis
    using failure_keeps_partial_output[OF tree_readonly_disk ne f] tree_readonly_disk ne f
    by blast
qed

section \<open>The toggles only add\<close>

text \<open>
  C5 (as amended). Setting a toggle only inserts: the directories, the written
  paths and the lines of \<^verbatim>\<open>requirements.txt\<close>, \<^verbatim>\<open>README.md\<close> and
  \<^verbatim>\<open>app/__init__.py\<close> produced with a toggle off are, in the same order and
  unaltered, among those produced with the toggle on, and every other file is
  written with the same text. The extra entries stand where the source extends its
  lists: at the end for \<open>with_auth\<close> (directories, requirement lines), before the
  entries of \<open>with_auth\<close> for \<open>with_database\<close>.
\<close>

theorem toggles_only_insert:
  "subseq (dirs root False auth) (dirs root True auth)
   \<and> prefix (dirs root db False) (dirs root db True)
   \<and> subseq (file_targets (statements root name False auth))
        (file_targets (statements root name True auth))
   \<and> subseq (file_targets (statements root name db False))
        (file_targets (statements root name db True))
   \<and> subseq (lines_of (create_requirements False auth)) (lines_of (create_requirements True auth))
   \<and> prefix (create_requirements db False) (create_requirements db True)
   \<and> subseq (lines_of (create_readme name False auth)) (lines_of (create_readme name True auth))
   \<and> subseq (lines_of (create_readme name db False)) (lines_of (create_readme name db True))
   \<and> subseq (lines_of (create_app_init False auth)) (lines_of (create_app_init True auth))
   \<and> subseq (lines_of (create_app_init db False)) (lines_of (create_app_init db True))
   \<and> (\<forall>f c db' auth'.
         (f, c) \<in> set (writes (statements root name db auth))
         \<and> f \<notin> {root @ [''app'', ''__init__.py''], root @ [''requirements.txt''], root @ [''README.md'']}
         \<and> (db \<longrightarrow> db') \<and> (auth \<longrightarrow> auth')
         \<longrightarrow> (f, c) \<in> set (writes (statements root name db' auth')))"
proof -
  have "\<forall>f c db' auth'.
         (f, c) \<in> set (writes (statements root name db auth))
         \<and> f \<notin> {root @ [''app'', ''__init__.py''], root @ [''requirements.txt''], root @ [''README.md'']}
         \<and> (db \<longrightarrow> db') \<and> (auth \<longrightarrow> auth')
         \<longrightarrow> (f, c) \<in> set (writes (statements root name db' auth'))"
    using other_files_same[of _ _ root name db auth] by blast
  then show ?thesis
    by (simp only: dirs_inserts file_targets_insert requirements_database_inserts
        requirements_auth_appends readme_database_inserts readme_auth_inserts
        app_init_database_inserts app_init_auth_inserts simp_thms)
qed

theorem toggles_only_insert_witness:
  "subseq (dirs [''demo''] False True) (dirs [''demo''] True True)
   \<and> prefix (dirs [''demo''] True False) (dirs [''demo''] True True)
   \<and> subseq (lines_of (create_requirements False True)) (lines_of (create_requirements True True))
   \<and> prefix (create_requirements True False) (create_requirements True True)
   \<and> subseq (lines_of (create_readme ''demo'' False True)) (lines_of (create_readme ''demo'' True True))
   \<and> subseq (lines_of (create_app_init False True)) (lines_of (create_app_init True True))
   \<and> ([''demo'', ''config.py''], create_config) \<in> set (writes (statements [''demo''] ''demo'' False False))
   \<and> ([''demo'', ''config.py''], create_config) \<in> set (writes (statements [''demo''] ''demo'' True True))"
proof -
  have w: "([''demo'', ''config.py''], create_config) \<in> set (writes (statements [''demo''] ''demo'' False False))"
    by (simp add: statements_def)
  show ?thesis
    using toggles_only_insert[where root = "[''demo'']" and name = "''demo''" and db = True and auth = True]
      toggles_only_insert[where root = "[''demo'']" and name = "''demo''" and db = False and auth = False] w
    by auto
qed

text \<open>
  The specification says that the extra lines are appended. With
  \<open>with_auth\<close> on, the two requirement lines of \<open>with_database\<close> are not: they come
  before the lines of \<open>with_auth\<close>, so the list with the toggle off is not the
  beginning of the list with the toggle on.
\<close>

theorem toggles_append_counterexample:
  "\<not> prefix (create_requirements False True) (create_requirements True True)"
  by (simp add: create_requirements_def)

section \<open>The order of the statements\<close>

text \<open>
  C6. In the routine all \<^verbatim>\<open>mkdir\<close> statements come before all writes, and every
  file is written after a \<^verbatim>\<open>mkdir\<close> that creates its parent directory. There is
  no other ordering dependency: on a destination that can be created, without
  faults, every reordering of the statements that still writes each file after a
  \<^verbatim>\<open>mkdir\<close> creating its parent ends in the same result and the same file system.
\<close>

theorem directories_before_files:
  "(\<exists>ds ws. statements root name db auth = map Mkdir ds @ map (\<lambda>(f, c). WriteText f c) ws)
   \<and> ready [] (statements root name db auth)
   \<and> (\<forall>as. mset as = mset (statements root name db auth) \<and> ready [] as
          \<and> tree s \<and> creatable s root \<and> fault_free s
        \<longrightarrow> run as s = run (statements root name db auth) s)"
proof (intro conjI allI impI)
  show "\<exists>ds ws. statements root name db auth = map Mkdir ds @ map (\<lambda>(f, c). WriteText f c) ws"
    using statements_shape[of root name db auth] by blast
  show "ready [] (statements root name db auth)" by (rule ready_statements)
next
  fix as
  assume h: "mset as = mset (statements root name db auth) \<and> ready [] as
          \<and> tree s \<and> creatable s root \<and> fault_free s"
  then have c: "clear s (statements root name db auth)"
    using clear_statements by blast
  from h show "run as s = run (statements root name db auth) s"
    using run_reorder[OF _ c ready_statements distinct_file_targets] by blast
qed

theorem directories_before_files_witness:
  "mset shuffled = mset (statements [''demo''] ''demo'' False False) \<and> ready [] shuffled
   \<and> shuffled \<noteq> statements [''demo''] ''demo'' False False
   \<and> tree empty_disk \<and> creatable empty_disk [''demo''] \<and> fault_free empty_disk
   \<and> ready [] (statements [''demo''] ''demo'' False False)
   \<and> run shuffled empty_disk = run (statements [''demo''] ''demo'' False False) empty_disk"
proof -
  have m: "mset shuffled = mset (statements [''demo''] ''demo'' False False)"
    unfolding shuffled_def mset_append mset_rev
    by (metis append_take_drop_id mset_append)
  have r: "ready [] shuffled"
    by (simp add: shuffled_def statements_def dirs_def parent_def anchor_def)
  have n: "shuffled \<noteq> statements [''demo''] ''demo'' False False"
    by (simp add: shuffled_def statements_def dirs_def)
  show ?thesis
    using directories_before_files[of "[''demo'']" "''demo''" False False empty_disk]
      m r n tree_empty_disk creatable_empty_disk
    by blast
qed

section \<open>The feature list of the README\<close>

text \<open>
  C7 (as amended). For every project name without a line break and every toggle
  combination, the Features section of the generated README lists exactly the six
  base bullets, then the two database bullets iff \<open>with_database\<close>, then the two
  auth bullets iff \<open>with_auth\<close>, and no other bullet.
\<close>

theorem readme_feature_bullets:
  assumes "CHR 0x0A \<notin> set name"
  shows "feature_bullets (create_readme name db auth) = expected_bullets db auth"
proof -
  have title: "lines_of (''# '' @ name) = [''# '' @ name]"
    using assms by (simp add: lines_of_def split_on_no_sep)
  show ?thesis
    unfolding feature_bullets_def features_section_def lines_of_readme title
    by (cases db; cases auth) (simp_all add: readme_chunks tl_unlines lines_calc bullets_defs)
qed

theorem readme_feature_bullets_witness:
  "CHR 0x0A \<notin> set ''demo''
   \<and> feature_bullets (create_readme ''demo'' True False) =
      [''Application factory pattern'', ''Blueprints for modular routing'',
       ''Environment-based configuration'', ''Docker & docker-compose setup'',
       ''Production-ready with gunicorn'', ''Security best practices'',
       ''SQLAlchemy ORM with migrations'', ''Database support'']"
  using readme_feature_bullets[of "''demo''" True False]
  by (simp add: bullets_defs)

text \<open>
  The project name is written into the title line as it is. A name that holds line
  breaks can bring a Features heading and a bullet of its own, and the section then
  lists that bullet and none of the expected ones.
\<close>

theorem readme_feature_bullets_counterexample:
  "feature_bullets (create_readme hostile_name False False) = [''Extra'']
   \<and> feature_bullets (create_readme hostile_name False False) \<noteq> expected_bullets False False"
proof -
  have title: "lines_of (''# '' @ hostile_name) = [''# x'', ''## Features'', ''- Extra'']"
    by (simp add: hostile_name_def lines_calc)
  have "feature_bullets (create_readme hostile_name False False) = [''Extra'']"
    unfolding feature_bullets_def features_section_def lines_of_readme title
    by (simp add: readme_chunks tl_unlines lines_calc)
  then show ?thesis by (simp add: bullets_defs)
qed

section \<open>The build files are well-formed\<close>



section \<open>Determinism\<close>

text \<open>
  C9. Two runs with the same arguments that both succeed print the same report and
  leave, at every path at or below the destination, the same entry with the same
  text, whatever else the two file systems hold: what is generated depends on the
  arguments only.
\<close>

theorem generation_deterministic:
  assumes "tree s1" and "tree s2"
    and "exit_code (main a s1) = 0" and "exit_code (main a s2) = 0"
  shows "stdout (main a s1) = stdout (main a s2)
    \<and> (\<forall>p. prefix (destination a) p \<longrightarrow>
          lookup (disk (main a s1)) p = lookup (disk (main a s2)) p)"
proof -
  from assms(3) obtain t1 where 1: "\<not> path_exists s1 (destination a)"
    "run (statements (destination a) (project_name a) (with_database a) (with_auth a)) s1 = (None, t1)"
    "main a s1 = \<lparr>exit_code = 0, stdout = success_report a (destination a), stderr = [], disk = t1\<rparr>"
    by (rule main_exit_0D)
  from assms(4) obtain t2 where 2: "\<not> path_exists s2 (destination a)"
    "run (statements (destination a) (project_name a) (with_database a) (with_auth a)) s2 = (None, t2)"
    "main a s2 = \<lparr>exit_code = 0, stdout = success_report a (destination a), stderr = [], disk = t2\<rparr>"
    by (rule main_exit_0D)
  have "lookup t1 p = lookup t2 p" if "prefix (destination a) p" for p
    using successful_run_below[OF assms(1) _ 1(2) that] successful_run_below[OF assms(2) _ 2(2) that]
      1(1) 2(1) by (simp add: path_exists_def)
  then show ?thesis by (simp add: 1(3) 2(3))
qed

theorem generation_deterministic_witness:
  "tree empty_disk \<and> tree busy_disk
   \<and> exit_code (main demo_args empty_disk) = 0 \<and> exit_code (main demo_args busy_disk) = 0
   \<and> stdout (main demo_args empty_disk) = stdout (main demo_args busy_disk)
   \<and> lookup (disk (main demo_args empty_disk)) [''demo'', ''README.md'']
       = lookup (disk (main demo_args busy_disk)) [''demo'', ''README.md'']"
proof -
  have e: "exit_code (main demo_args empty_disk) = 0" "exit_code (main demo_args busy_disk) = 0"
    using main_fresh[OF tree_empty_disk, of demo_args] main_fresh[OF tree_busy_disk, of demo_args]
      creatable_empty_disk creatable_busy_disk by (simp_all add: destination_demo)
  show ?thesis
    using generation_deterministic[OF tree_empty_disk tree_busy_disk e] tree_empty_disk tree_busy_disk e
    by (simp add: destination_demo)
qed

section \<open>The routine on an existing destination\<close>

text \<open>
  C10. The generation routine itself does not check for an existing destination.
  Called on a destination that exists already, in whole or in part (with no regular
  file where a directory is to be and no directory where a file is to be written),
  it raises nothing: every directory of its list is a directory afterwards, and
  every file it writes holds the newly generated text, whatever it held before.
  The command line, on the same file system, refuses with exit code 1.
\<close>

theorem routine_overwrites_existing:
  assumes "tree s" and "fault_free s" and "path_exists s root" and "compatible s root db auth"
  shows "fst (create_project_structure root name db auth s) = None
    \<and> (\<forall>d\<in>set (dirs root db auth). is_dir (snd (create_project_structure root name db auth s)) d)
    \<and> (\<forall>f c. WriteText f c \<in> set (statements root name db auth) \<longrightarrow>
          lookup (snd (create_project_structure root name db auth s)) f = Some (File c))
    \<and> (\<forall>a. destination a = root \<longrightarrow> exit_code (main a s) = 1 \<and> disk (main a s) = s)"
proof -
  note c = clear_compatible[OF assms(2,4), of name]
  note r = ready_statements[of root name db auth]
  note out = run_outcome[OF assms(1) c r] run_outcome_kinds[OF assms(1) c r]
  have "is_dir (snd (run (statements root name db auth) s)) d" if "d \<in> set (dirs root db auth)" for d
    using that out(4)[of d] by (auto simp: dir_targets_statements)
  moreover have "lookup (snd (run (statements root name db auth) s)) f = Some (File c)"
    if "WriteText f c \<in> set (statements root name db auth)" for f c
    using out(2)[of f] map_of_writes[OF distinct_file_targets that] by simp
  moreover have "exit_code (main a s) = 1 \<and> disk (main a s) = s" if "destination a = root" for a
    using main_exists[of s a] assms(3) that by simp
  ultimately show ?thesis
    using out(1) by (simp add: create_project_structure_def)
qed

theorem routine_overwrites_existing_witness:
  "tree partial_disk \<and> fault_free partial_disk \<and> path_exists partial_disk [''demo'']
   \<and> compatible partial_disk [''demo''] False False
   \<and> lookup partial_disk [''demo'', ''README.md''] = Some (File ''old'')
   \<and> fst (create_project_structure [''demo''] ''demo'' False False partial_disk) = None
   \<and> lookup (snd (create_project_structure [''demo''] ''demo'' False False partial_disk)) [''demo'', ''README.md'']
       = Some (File (create_readme ''demo'' False False))
   \<and> is_dir (snd (create_project_structure [''demo''] ''demo'' False False partial_disk)) [''demo'', ''app'']
   \<and> exit_code (main demo_args partial_disk) = 1"
proof -
  have l: "lookup partial_disk p =
      (if anchor p then Some Dir
       else if p = [''demo''] \<or> p = [''demo'', ''app''] then Some Dir
       else if p = [''demo'', ''README.md''] then Some (File ''old'') else None)" for p
    by (simp add: lookup_def partial_disk_def)
  have h1: "fault_free partial_disk"
    by (simp add: fault_free_def partial_disk_def)
  have h2: "path_exists partial_disk [''demo'']" "compatible partial_disk [''demo''] False False"
    by (simp_all add: path_exists_def compatible_def l is_file_def is_dir_def
        anchor_def expected_directories_def expected_files_def base_directories_def base_files_def)
  note h = h1 h2
  have w: "WriteText [''demo'', ''README.md''] (create_readme ''demo'' False False)
      \<in> set (statements [''demo''] ''demo'' False False)"
    "[''demo'', ''app''] \<in> set (dirs [''demo''] False False)"
    by (simp_all add: statements_def dirs_def)
  show ?thesis
    using routine_overwrites_existing[OF tree_partial_disk h, of "''demo''"] tree_partial_disk h w
    by (auto simp: l anchor_def destination_demo)
qed

end
